(* ===== verification/Prelude.thy ===== *)
theory Prelude
  imports Main "HOL-Library.List_Lexorder" "HOL-Library.Char_ord" "HOL-Library.Multiset"
begin

text \<open>
  Shared vocabulary of the development. The Python module \<^verbatim>\<open>src/cohort_data.py\<close>
  raises one kind of exception on its own (an \<^verbatim>\<open>IndexError\<close> when a line has too
  few fields), so the error type has one constructor and every fallible step returns
  \<open>py_error + 'a\<close>. Python's \<^verbatim>\<open>for\<close> loop whose body may raise is the combinator
  \<open>py_for\<close>: it threads the loop state through the elements and stops at the first
  exception. Its lemmas (fusion with \<open>fold\<close> when no step fails, the loop invariant
  rule, the characterisation of failure) carry the component proofs.
  Strings are \<open>char list\<close>s ordered lexicographically by character code
  (\<open>List_Lexorder\<close>, \<open>Char_ord\<close>), which is the order of Python's \<^verbatim>\<open>sorted\<close>
  on strings of code points below 256.
\<close>

named_theorems py_simps "evaluation rules of the modelled Python primitives"

datatype py_error = IndexError

type_synonym 'a py_result = "py_error + 'a"

text \<open>Python's \<^verbatim>\<open>xs[i]\<close> for a non-negative literal index \<open>i\<close>.\<close>

definition py_index :: "'a list \<Rightarrow> nat \<Rightarrow> 'a py_result" where
  "py_index xs i = (if i < length xs then Inr (xs ! i) else Inl IndexError)"

text \<open>A \<^verbatim>\<open>for x in xs:\<close> loop with state \<open>s\<close> and a body that may raise.\<close>

fun py_for :: "('s \<Rightarrow> 'a \<Rightarrow> 's py_result) \<Rightarrow> 's \<Rightarrow> 'a list \<Rightarrow> 's py_result" where
  "py_for f s [] = Inr s"
| "py_for f s (x # xs) = (case f s x of Inl e \<Rightarrow> Inl e | Inr s' \<Rightarrow> py_for f s' xs)"

text \<open>The four fields of a row of \<^verbatim>\<open>all_data\<close>: (full_name, house, advisor, cohort).\<close>

type_synonym row = "string \<times> string \<times> string \<times> string"

abbreviation row_name :: "row \<Rightarrow> string" where
  "row_name r \<equiv> fst r"

abbreviation row_house :: "row \<Rightarrow> string" where
  "row_house r \<equiv> fst (snd r)"

abbreviation row_advisor :: "row \<Rightarrow> string" where
  "row_advisor r \<equiv> fst (snd (snd r))"

abbreviation row_cohort :: "row \<Rightarrow> string" where
  "row_cohort r \<equiv> snd (snd (snd r))"

subsection \<open>Indexing\<close>

lemma py_index_ok [simp, py_simps]: "i < length xs \<Longrightarrow> py_index xs i = Inr (xs ! i)"
  by (simp add: py_index_def)

lemma py_index_fail [simp, py_simps]: "\<not> i < length xs \<Longrightarrow> py_index xs i = Inl IndexError"
  by (simp add: py_index_def)

lemma py_index_Inr_iff: "py_index xs i = Inr x \<longleftrightarrow> i < length xs \<and> x = xs ! i"
  by (auto simp: py_index_def)

lemma py_index_Inl_iff: "py_index xs i = Inl e \<longleftrightarrow> length xs \<le> i"
  by (cases e) (auto simp: py_index_def)

subsection \<open>The loop combinator\<close>

lemma py_for_append:
  "py_for f s (xs @ ys) = (case py_for f s xs of Inl e \<Rightarrow> Inl e | Inr s' \<Rightarrow> py_for f s' ys)"
  by (induction xs arbitrary: s) (auto split: sum.split)

text \<open>When no step raises, the loop is a \<open>fold\<close> of the step's result.\<close>

lemma py_for_fold:
  assumes "\<And>s x. x \<in> set xs \<Longrightarrow> f s x = Inr (g x s)"
  shows "py_for f s xs = Inr (fold g xs s)"
  using assms by (induction xs arbitrary: s) auto

text \<open>Loop invariant rule: what every successful step keeps holds of the result.\<close>

lemma py_for_invariant:
  assumes "py_for f s xs = Inr t" and "P s"
    and "\<And>s x s'. P s \<Longrightarrow> x \<in> set xs \<Longrightarrow> f s x = Inr s' \<Longrightarrow> P s'"
  shows "P t"
  using assms
proof (induction xs arbitrary: s)
  case Nil
  then show ?case by simp
next
  case (Cons x xs)
  from Cons.prems(1) obtain s' where s': "f s x = Inr s'" and rest: "py_for f s' xs = Inr t"
    by (cases "f s x") auto
  have "P s'" by (rule Cons.prems(3)[OF Cons.prems(2) _ s']) simp
  have step: "\<And>s y s'. P s \<Longrightarrow> y \<in> set xs \<Longrightarrow> f s y = Inr s' \<Longrightarrow> P s'"
    using Cons.prems(3) by (meson list.set_intros(2))
  show ?case by (rule Cons.IH[OF rest \<open>P s'\<close> step])
qed

text \<open>
  When whether a step raises depends on the element only, the loop raises exactly when
  some element is bad; the state is irrelevant.
\<close>

lemma py_for_Inl_iff:
  assumes "\<And>s x. x \<in> set xs \<Longrightarrow> isl (f s x) \<longleftrightarrow> bad x"
  shows "isl (py_for f s xs) \<longleftrightarrow> (\<exists>x \<in> set xs. bad x)"
  using assms
proof (induction xs arbitrary: s)
  case Nil
  then show ?case by simp
next
  case (Cons x xs)
  show ?case
  proof (cases "f s x")
    case (Inl e)
    with Cons.prems[of x s] show ?thesis by simp
  next
    case (Inr s')
    with Cons.prems[of x s] have "\<not> bad x" by simp
    have "isl (py_for f s' xs) \<longleftrightarrow> (\<exists>y \<in> set xs. bad y)"
      by (rule Cons.IH) (rule Cons.prems, simp)
    with Inr \<open>\<not> bad x\<close> show ?thesis by simp
  qed
qed

text \<open>
  A loop that appends one result per element, \<^verbatim>\<open>acc.append(h(x))\<close>, where
  computing the result may raise: it succeeds exactly when every element's result exists.
\<close>

lemma py_for_collect:
  "py_for (\<lambda>acc x. case h x of Inl e \<Rightarrow> Inl e | Inr r \<Rightarrow> Inr (acc @ [r])) acc xs = Inr res
   \<longleftrightarrow> (\<exists>rs. res = acc @ rs \<and> list_all2 (\<lambda>x r. h x = Inr r) xs rs)"
proof (induction xs arbitrary: acc)
  case Nil
  then show ?case by auto
next
  case (Cons x xs)
  then show ?case by (cases "h x") (auto simp: list_all2_Cons1)
qed

lemma isl_case_Inr [simp]:
  "isl (case r of Inl e \<Rightarrow> Inl e | Inr x \<Rightarrow> Inr (f x)) = isl r"
  by (cases r) auto

lemma isl_map_sum [simp]: "isl (map_sum f g r) = isl r"
  by (cases r) auto

lemma isl_py_error: "isl r \<longleftrightarrow> r = Inl IndexError"
proof (cases r)
  case (Inl e)
  then show ?thesis by (cases e) simp
qed simp

text \<open>
  Two computations that raise on the same inputs and agree whenever the second one
  succeeds are related by \<open>map_sum\<close>: the first is the second followed by a pure function.
\<close>

lemma py_result_refine:
  fixes r :: "'b py_result" and s :: "'a py_result"
  assumes "isl r \<longleftrightarrow> isl s" and "\<And>x. s = Inr x \<Longrightarrow> r = Inr (f x)"
  shows "r = map_sum id f s"
proof (cases s)
  case (Inl e)
  with assms(1) have "isl r" by simp
  then show ?thesis using Inl by (cases e) (simp add: isl_py_error[of r])
next
  case (Inr x)
  then show ?thesis using assms(2) by simp
qed

text \<open>Two results are equal when they raise together and agree when both succeed.\<close>

lemma py_result_eqI:
  fixes r1 r2 :: "'a py_result"
  assumes "isl r1 \<longleftrightarrow> isl r2" and "\<And>x1 x2. r1 = Inr x1 \<Longrightarrow> r2 = Inr x2 \<Longrightarrow> x1 = x2"
  shows "r1 = r2"
proof (cases r1)
  case (Inl e1)
  with assms(1) have "isl r2" by simp
  then show ?thesis using Inl by (cases e1) (simp add: isl_py_error[of r2])
next
  case (Inr x1)
  with assms(1) obtain x2 where "r2 = Inr x2" by (cases r2) auto
  with Inr assms(2) show ?thesis by simp
qed

subsection \<open>Lists and sorting\<close>

lemma list_all2_eq_map:
  "list_all2 (\<lambda>x y. P x \<and> y = f x) xs ys \<longleftrightarrow> (\<forall>x \<in> set xs. P x) \<and> ys = map f xs"
  by (induction xs arbitrary: ys) (auto simp: list_all2_Cons1)

lemma fold_append_concat: "fold (\<lambda>x acc. acc @ h x) xs acc0 = acc0 @ concat (map h xs)"
  by (induction xs arbitrary: acc0) auto

lemma find_map_option: "find P (map f xs) = map_option f (find (P \<circ> f) xs)"
  by (induction xs) auto

lemma find_append_list:
  "find P (xs @ ys) = (case find P xs of None \<Rightarrow> find P ys | Some x \<Rightarrow> Some x)"
  by (induction xs) auto

lemma count_list_pos: "x \<in> set xs \<Longrightarrow> 0 < count_list xs x"
  by (induction xs) auto

lemma find_distinct_key:
  "distinct (map f xs) \<Longrightarrow> x \<in> set xs \<Longrightarrow> find (\<lambda>y. f y = f x) xs = Some x"
  by (induction xs) (auto simp: image_iff)

lemma sum_list_single_key:
  "distinct ds \<Longrightarrow> a \<in> set ds \<Longrightarrow>
   sum_list (map (\<lambda>c. if a = c then m else (0::'b::monoid_add)) ds) = m"
proof (induction ds)
  case (Cons d ds)
  then show ?case
  proof (cases "a = d")
    case True
    with Cons.prems have "sum_list (map (\<lambda>c. if a = c then m else 0) ds) = 0"
      by (induction ds) auto
    with True show ?thesis by simp
  qed simp
qed simp

text \<open>Cutting a list into groups by a key and concatenating the groups permutes it.\<close>

lemma mset_concat_group:
  "distinct ds \<Longrightarrow> set (map k xs) \<subseteq> set ds \<Longrightarrow>
   mset (concat (map (\<lambda>c. filter (\<lambda>x. k x = c) xs) ds)) = mset xs"
proof (induction xs)
  case Nil
  then show ?case by (induction ds) auto
next
  case (Cons x xs)
  have "mset (concat (map (\<lambda>c. filter (\<lambda>y. k y = c) (x # xs)) ds)) =
      sum_list (map (\<lambda>c. if k x = c then {#x#} else {#}) ds) +
      mset (concat (map (\<lambda>c. filter (\<lambda>y. k y = c) xs) ds))"
    by (induction ds) auto
  also have "\<dots> = {#x#} + mset xs"
    using Cons by (simp add: sum_list_single_key)
  finally show ?case by simp
qed

lemma mset_concat_sort:
  "mset (concat (map (\<lambda>c. sort (g c)) ds)) = mset (concat (map g ds))"
  by (induction ds) auto

lemma sort_cong_mset: "mset xs = mset ys \<Longrightarrow> sort xs = sort ys"
  by (metis mset_sort properties_for_sort sorted_sort)

lemma sorted_sort_mset_eq:
  "sorted xs \<Longrightarrow> mset xs = mset ys \<Longrightarrow> xs = sort ys"
  using properties_for_sort[of xs ys] by simp

end
