(* ===== verification/PyStr.thy ===== *)
theory PyStr
  imports Prelude
begin

text \<open>
  The Python string and file primitives that \<^verbatim>\<open>src/cohort_data.py\<close> relies on:
  \<^verbatim>\<open>str.isspace\<close> on one character, \<^verbatim>\<open>str.rstrip()\<close>, \<^verbatim>\<open>str.split('|')\<close>,
  and iteration over a text file, which yields the lines with their terminator.
  Characters are the 256 code points of \<open>char\<close>; the whitespace set is Python's
  for that range. The file is its content after universal-newline translation.
  \<open>join_sep\<close> is not called by the code: it writes a record line back, and the
  round trips of split and join are stated with it.
\<close>

definition nl :: char where
  "nl = CHR ''\<newline>''"

definition py_isspace :: "char \<Rightarrow> bool" where
  "py_isspace c =
     (let n = (of_char c :: nat)
      in (9 \<le> n \<and> n \<le> 13) \<or> (28 \<le> n \<and> n \<le> 32) \<or> n = 133 \<or> n = 160)"

definition rstrip :: "string \<Rightarrow> string" where
  "rstrip s = rev (dropWhile py_isspace (rev s))"

fun split_sep :: "char \<Rightarrow> string \<Rightarrow> string list" where
  "split_sep d [] = [[]]"
| "split_sep d (c # s) =
     (if c = d then [] # split_sep d s
      else (case split_sep d s of [] \<Rightarrow> [[c]] | f # fs \<Rightarrow> (c # f) # fs))"

fun join_sep :: "char \<Rightarrow> string list \<Rightarrow> string" where
  "join_sep d [] = []"
| "join_sep d [f] = f"
| "join_sep d (f # fs) = f @ d # join_sep d fs"

text \<open>
  Text-mode iteration \<^verbatim>\<open>for line in file\<close>: \<open>cur\<close> is the line read so far; a
  newline ends it, and a last line without newline is yielded when the text ends.
\<close>

fun lines_from :: "string \<Rightarrow> string \<Rightarrow> string list" where
  "lines_from cur [] = (if cur = [] then [] else [cur])"
| "lines_from cur (c # s) =
     (if c = nl then (cur @ [c]) # lines_from [] s else lines_from (cur @ [c]) s)"

definition py_lines :: "string \<Rightarrow> string list" where
  "py_lines text = lines_from [] text"

subsection \<open>Splitting and joining\<close>

lemma split_sep_not_Nil [simp]: "split_sep d s \<noteq> []"
  by (induction s) (auto split: list.split)

lemma split_sep_Cons_other:
  "c \<noteq> d \<Longrightarrow> split_sep d (c # s) = (c # hd (split_sep d s)) # tl (split_sep d s)"
  by (cases "split_sep d s") auto

lemma split_sep_no_sep [simp, py_simps]: "d \<notin> set s \<Longrightarrow> split_sep d s = [s]"
  by (induction s) auto

lemma split_sep_append_sep [py_simps]:
  "split_sep d (u @ d # v) = split_sep d u @ split_sep d v"
proof (induction u)
  case Nil
  then show ?case by simp
next
  case (Cons c u)
  then show ?case
    by (cases "c = d") (simp_all add: split_sep_Cons_other, cases "split_sep d u", auto)
qed

lemma length_split_sep: "length (split_sep d s) = Suc (count_list s d)"
  by (induction s) (auto split: list.split)

lemma join_sep_Cons_Cons: "join_sep d ((c # f) # fs) = c # join_sep d (f # fs)"
  by (cases fs) auto

text \<open>Joining the fields that \<^verbatim>\<open>split\<close> returns gives the string back.\<close>

lemma join_split_sep: "join_sep d (split_sep d s) = s"
proof (induction s)
  case Nil
  then show ?case by simp
next
  case (Cons c s)
  show ?case
  proof (cases "c = d")
    case True
    with Cons.IH show ?thesis by (cases "split_sep d s") auto
  next
    case False
    with Cons.IH show ?thesis
      by (cases "split_sep d s") (simp_all add: join_sep_Cons_Cons)
  qed
qed

text \<open>Splitting a joined list of separator-free fields gives the fields back.\<close>

lemma split_join_sep:
  "fs \<noteq> [] \<Longrightarrow> (\<forall>f \<in> set fs. d \<notin> set f) \<Longrightarrow> split_sep d (join_sep d fs) = fs"
proof (induction d fs rule: join_sep.induct)
  case (3 d f g fs)
  then show ?case by (simp add: split_sep_append_sep)
qed simp_all

lemma split_sep_fields_no_sep: "f \<in> set (split_sep d s) \<Longrightarrow> d \<notin> set f"
  by (induction s arbitrary: f) (auto split: if_splits list.splits)

lemma set_join_sep: "f \<in> set fs \<Longrightarrow> set f \<subseteq> set (join_sep d fs)"
  by (induction d fs rule: join_sep.induct) auto

lemma split_sep_fields_subset: "f \<in> set (split_sep d s) \<Longrightarrow> set f \<subseteq> set s"
  using set_join_sep[of f "split_sep d s" d] join_split_sep[of d s] by simp

subsection \<open>Stripping trailing whitespace\<close>

lemma py_isspace_nl [simp]: "py_isspace nl"
  by (simp add: py_isspace_def nl_def)

lemma py_isspace_bar [simp]: "\<not> py_isspace CHR ''|''"
  by (simp add: py_isspace_def)

lemma rstrip_Nil [simp]: "rstrip [] = []"
  by (simp add: rstrip_def)

lemma rstrip_snoc [simp]:
  "rstrip (s @ [c]) = (if py_isspace c then rstrip s else s @ [c])"
  by (simp add: rstrip_def)

lemma rstrip_append:
  "rstrip (u @ v) = (if rstrip v = [] then rstrip u else u @ rstrip v)"
  by (induction v rule: rev_induct) (simp_all add: append_assoc[symmetric] del: append_assoc)

lemma rstrip_nonspace_end:
  assumes "\<not> py_isspace c"
  shows "rstrip (u @ c # v) = u @ c # rstrip v"
proof -
  have "rstrip ((u @ [c]) @ v) =
    (if rstrip v = [] then rstrip (u @ [c]) else (u @ [c]) @ rstrip v)"
    by (rule rstrip_append)
  with assms show ?thesis by (simp split: if_splits)
qed

lemma rstrip_prefix: "\<exists>w. s = rstrip s @ w \<and> (\<forall>c \<in> set w. py_isspace c)"
proof (induction s rule: rev_induct)
  case (snoc c s)
  then obtain w where w: "s = rstrip s @ w" "\<forall>c \<in> set w. py_isspace c" by blast
  show ?case
  proof (cases "py_isspace c")
    case True
    then have "s @ [c] = rstrip (s @ [c]) @ (w @ [c])"
      by (metis append_assoc rstrip_snoc w(1))
    with True w(2) show ?thesis by (intro exI[of _ "w @ [c]"]) auto
  qed simp
qed simp

lemma set_rstrip: "set (rstrip s) \<subseteq> set s"
  using rstrip_prefix[of s] by (metis Un_upper1 set_append)

lemma rstrip_last: "rstrip s = [] \<or> \<not> py_isspace (last (rstrip s))"
  by (induction s rule: rev_induct) auto

lemma rstrip_idem [simp]: "rstrip (rstrip s) = rstrip s"
  by (induction s rule: rev_induct) auto

lemma rstrip_no_trailing_space:
  "s = [] \<or> \<not> py_isspace (last s) \<Longrightarrow> rstrip s = s"
  by (cases s rule: rev_cases) auto

text \<open>
  \<^verbatim>\<open>line.rstrip().split('|')\<close>: stripping only touches the last field, because
  the separator is not whitespace.
\<close>

lemma split_sep_rstrip:
  assumes "\<not> py_isspace d"
  shows "split_sep d (rstrip s) = butlast (split_sep d s) @ [rstrip (last (split_sep d s))]"
proof (cases "d \<in> set s")
  case True
  then obtain u v where s: "s = u @ d # v" and v: "d \<notin> set v"
    by (metis split_list_last)
  have "d \<notin> set (rstrip v)" using v set_rstrip by blast
  moreover have "rstrip s = u @ d # rstrip v"
    using s assms by (simp add: rstrip_nonspace_end)
  ultimately show ?thesis using s v by (simp add: split_sep_append_sep)
next
  case False
  then have "d \<notin> set (rstrip s)" using set_rstrip by blast
  with False show ?thesis by simp
qed

lemma length_split_sep_rstrip:
  "\<not> py_isspace d \<Longrightarrow> length (split_sep d (rstrip s)) = length (split_sep d s)"
  by (simp add: split_sep_rstrip)

lemma nth_split_sep_rstrip:
  "\<not> py_isspace d \<Longrightarrow> Suc i < length (split_sep d s) \<Longrightarrow>
   split_sep d (rstrip s) ! i = split_sep d s ! i"
  by (simp add: split_sep_rstrip nth_append nth_butlast)

subsection \<open>Lines of a text file\<close>

lemma concat_lines_from: "concat (lines_from cur s) = cur @ s"
  by (induction s arbitrary: cur) auto

lemma lines_from_line:
  "nl \<notin> set l \<Longrightarrow> lines_from cur (l @ nl # s) = (cur @ l @ [nl]) # lines_from [] s"
  by (induction l arbitrary: cur) auto

lemma py_lines_Cons_line [py_simps]:
  "nl \<notin> set l \<Longrightarrow> py_lines (l @ nl # s) = (l @ [nl]) # py_lines s"
  by (simp add: py_lines_def lines_from_line)

lemma py_lines_Nil [simp, py_simps]: "py_lines [] = []"
  by (simp add: py_lines_def)

lemma lines_from_append_nl:
  "lines_from cur (s @ nl # t) = lines_from cur (s @ [nl]) @ lines_from [] t"
  by (induction s arbitrary: cur) auto

text \<open>A file that ends with a newline is read line by line before what follows it.\<close>

lemma py_lines_append:
  "s = [] \<or> last s = nl \<Longrightarrow> py_lines (s @ t) = py_lines s @ py_lines t"
proof (cases s rule: rev_cases)
  case (snoc u c)
  moreover assume "s = [] \<or> last s = nl"
  ultimately show ?thesis
    using lines_from_append_nl[of "[]" u t] by (simp add: py_lines_def)
qed simp

lemma lines_from_not_Nil: "l \<in> set (lines_from cur s) \<Longrightarrow> l \<noteq> []"
  by (induction s arbitrary: cur) (auto split: if_splits)

lemma py_lines_not_Nil: "l \<in> set (py_lines text) \<Longrightarrow> l \<noteq> []"
  by (simp add: py_lines_def lines_from_not_Nil)

lemma lines_from_last_nl:
  "s \<noteq> [] \<Longrightarrow> last s = nl \<Longrightarrow> l \<in> set (lines_from cur s) \<Longrightarrow> last l = nl"
proof (induction s arbitrary: cur)
  case (Cons c s)
  show ?case
  proof (cases "c = nl")
    case True
    with Cons show ?thesis by (cases s) auto
  next
    case False
    with Cons.prems have "s \<noteq> []" by auto
    with False Cons show ?thesis by auto
  qed
qed simp

lemma lines_from_butlast_no_nl:
  "nl \<notin> set cur \<Longrightarrow> l \<in> set (lines_from cur s) \<Longrightarrow> nl \<notin> set (butlast l)"
proof (induction s arbitrary: cur)
  case Nil
  then show ?case by (auto split: if_splits dest: in_set_butlastD)
next
  case (Cons c s)
  show ?case
  proof (cases "c = nl")
    case True
    with Cons.prems have "l = cur @ [c] \<or> l \<in> set (lines_from [] s)" by simp
    then show ?thesis using Cons.IH[of "[]"] Cons.prems(1) by auto
  next
    case False
    with Cons.prems have "l \<in> set (lines_from (cur @ [c]) s)" by simp
    then show ?thesis using Cons.IH[of "cur @ [c]"] Cons.prems(1) False by auto
  qed
qed

text \<open>In a text that ends with a newline, every line ends with its only newline.\<close>

lemma py_lines_shape:
  assumes "text = [] \<or> last text = nl" and "l \<in> set (py_lines text)"
  shows "l \<noteq> [] \<and> last l = nl \<and> nl \<notin> set (butlast l)"
proof -
  have "text \<noteq> []" using assms(2) by (auto simp: py_lines_def)
  then show ?thesis
    using assms lines_from_last_nl[where s = "text" and cur = "[]" and l = l]
      lines_from_butlast_no_nl[where s = "text" and cur = "[]" and l = l]
      py_lines_not_Nil[of l "text"]
    by (auto simp: py_lines_def)
qed

end
