(* ===== verification/Roster.thy ===== *)
theory Roster
  imports PyStr
begin

text \<open>
  The record parser shared by the queries of \<^verbatim>\<open>src/cohort_data.py\<close> and the query
  \<^verbatim>\<open>all_data\<close> (lines 149--181), the projection of every line to a row
  \<open>(full_name, house, advisor, cohort)\<close>. Beside them, the abstract roster: a list of
  \<open>person\<close> records, the line format of the data file (\<open>encode_line\<close>, the
  five fields joined with \<^verbatim>\<open>|\<close> and a newline) and the well-formedness of a
  person (no field holds \<^verbatim>\<open>|\<close> or a newline, the cohort has no trailing
  whitespace). The refinement lemmas of every query start from \<open>all_data_encode\<close>:
  on an encoded roster, \<open>all_data\<close> returns the rows of the persons.
\<close>

subsection \<open>The record parser\<close>

text \<open>\<^verbatim>\<open>data = line.rstrip().split('|')\<close>\<close>

definition split_line :: "string \<Rightarrow> string list" where
  "split_line line = split_sep CHR ''|'' (rstrip line)"

text \<open>\<^verbatim>\<open>f"{data[0]} {data[1]}"\<close>\<close>

definition py_full_name :: "string list \<Rightarrow> string py_result" where
  "py_full_name data =
     (case py_index data 0 of
        Inl e \<Rightarrow> Inl e
      | Inr first_name \<Rightarrow>
          (case py_index data 1 of
             Inl e \<Rightarrow> Inl e
           | Inr last_name \<Rightarrow> Inr (first_name @ '' '' @ last_name)))"

text \<open>\<^verbatim>\<open>full_name, house, advisor, cohort = f"{data[0]} {data[1]}", data[2], data[3], data[4]\<close>\<close>

definition record_of_fields :: "string list \<Rightarrow> row py_result" where
  "record_of_fields data =
     (case py_full_name data of
        Inl e \<Rightarrow> Inl e
      | Inr full_name \<Rightarrow>
          (case py_index data 2 of
             Inl e \<Rightarrow> Inl e
           | Inr house \<Rightarrow>
               (case py_index data 3 of
                  Inl e \<Rightarrow> Inl e
                | Inr advisor \<Rightarrow>
                    (case py_index data 4 of
                       Inl e \<Rightarrow> Inl e
                     | Inr cohort \<Rightarrow> Inr (full_name, house, advisor, cohort)))))"

subsection \<open>\<^verbatim>\<open>all_data\<close>\<close>

definition all_data_step :: "row list \<Rightarrow> string \<Rightarrow> row list py_result" where
  "all_data_step rows line =
     (case record_of_fields (split_line line) of
        Inl e \<Rightarrow> Inl e
      | Inr my_tuple \<Rightarrow> Inr (rows @ [my_tuple]))"

definition all_data :: "string \<Rightarrow> row list py_result" where
  "all_data text = py_for all_data_step [] (py_lines text)"

subsection \<open>The abstract roster and its file format\<close>

record person =
  p_first :: string
  p_last :: string
  p_house :: string
  p_advisor :: string
  p_cohort :: string

definition p_full_name :: "person \<Rightarrow> string" where
  "p_full_name p = p_first p @ '' '' @ p_last p"

definition row_of :: "person \<Rightarrow> row" where
  "row_of p = (p_full_name p, p_house p, p_advisor p, p_cohort p)"

definition fields_of :: "person \<Rightarrow> string list" where
  "fields_of p = [p_first p, p_last p, p_house p, p_advisor p, p_cohort p]"

definition encode_line :: "person \<Rightarrow> string" where
  "encode_line p = join_sep CHR ''|'' (fields_of p) @ [nl]"

definition encode_file :: "person list \<Rightarrow> string" where
  "encode_file ps = concat (map encode_line ps)"

definition wf_field :: "string \<Rightarrow> bool" where
  "wf_field f \<longleftrightarrow> CHR ''|'' \<notin> set f \<and> nl \<notin> set f"

definition wf_person :: "person \<Rightarrow> bool" where
  "wf_person p \<longleftrightarrow> list_all wf_field (fields_of p) \<and> rstrip (p_cohort p) = p_cohort p"

definition wf_roster :: "person list \<Rightarrow> bool" where
  "wf_roster ps \<longleftrightarrow> list_all wf_person ps"

text \<open>The person whose line has the five fields \<open>d\<close>.\<close>

definition person_of_fields :: "string list \<Rightarrow> person" where
  "person_of_fields d =
     \<lparr>p_first = d ! 0, p_last = d ! 1, p_house = d ! 2, p_advisor = d ! 3, p_cohort = d ! 4\<rparr>"

text \<open>The names of the rows that satisfy \<open>P\<close>, in file order.\<close>

definition names_where :: "(row \<Rightarrow> bool) \<Rightarrow> row list \<Rightarrow> string list" where
  "names_where P rows = map (\<lambda>r. row_name r) (filter P rows)"

subsection \<open>Example persons\<close>

text \<open>
  The two records of the spec's end-to-end example, a ghost and an instructor; the
  witnesses of the development evaluate the queries on files made of them.
\<close>

definition harry :: person where
  "harry = \<lparr>p_first = ''Harry'', p_last = ''Potter'', p_house = ''Gryffindor'',
     p_advisor = ''McGonagall'', p_cohort = ''Fall 2015''\<rparr>"

definition ron :: person where
  "ron = \<lparr>p_first = ''Ron'', p_last = ''Weasley'', p_house = ''Gryffindor'',
     p_advisor = ''McGonagall'', p_cohort = ''Fall 2015''\<rparr>"

definition binns :: person where
  "binns = \<lparr>p_first = ''Cuthbert'', p_last = ''Binns'', p_house = [],
     p_advisor = [], p_cohort = ''G''\<rparr>"

definition snape :: person where
  "snape = \<lparr>p_first = ''Severus'', p_last = ''Snape'', p_house = [],
     p_advisor = [], p_cohort = ''I''\<rparr>"

subsection \<open>The parser, case by case\<close>

text \<open>The row that five or more fields make, when no index is out of range.\<close>

definition fields_row :: "string list \<Rightarrow> row" where
  "fields_row data = (data ! 0 @ '' '' @ data ! 1, data ! 2, data ! 3, data ! 4)"

lemma py_full_name_eq [py_simps]:
  "py_full_name data =
     (if 2 \<le> length data then Inr (data ! 0 @ '' '' @ data ! 1) else Inl IndexError)"
  by (simp add: py_full_name_def py_index_def)

lemma record_of_fields_eq [py_simps]:
  "record_of_fields data =
     (if 5 \<le> length data then Inr (fields_row data) else Inl IndexError)"
  by (simp add: record_of_fields_def py_full_name_eq py_index_def fields_row_def)

lemma record_of_fields_Inr_iff:
  "record_of_fields data = Inr r \<longleftrightarrow> 5 \<le> length data \<and> r = fields_row data"
  by (auto simp: record_of_fields_eq)

lemma isl_record_of_fields: "isl (record_of_fields data) \<longleftrightarrow> length data < 5"
  by (simp add: record_of_fields_eq)

subsection \<open>The file format\<close>

lemma encode_line_eq:
  "encode_line p = p_first p @ CHR ''|'' # p_last p @ CHR ''|'' # p_house p @ CHR ''|'' #
     p_advisor p @ CHR ''|'' # p_cohort p @ [nl]"
  by (simp add: encode_line_def fields_of_def)

lemma wf_person_fields:
  "wf_person p \<longleftrightarrow>
     wf_field (p_first p) \<and> wf_field (p_last p) \<and> wf_field (p_house p) \<and>
     wf_field (p_advisor p) \<and> wf_field (p_cohort p) \<and> rstrip (p_cohort p) = p_cohort p"
  by (simp add: wf_person_def fields_of_def)

lemma split_sep_encode_line:
  assumes "wf_person p"
  shows "split_sep CHR ''|'' (encode_line p) =
    [p_first p, p_last p, p_house p, p_advisor p, p_cohort p @ [nl]]"
proof -
  have "CHR ''|'' \<noteq> nl" by (simp add: nl_def)
  with assms show ?thesis
    by (simp add: encode_line_eq wf_person_fields wf_field_def split_sep_append_sep)
qed

text \<open>Round trip: the parser reads back the five fields a well-formed line was written from.\<close>

lemma split_line_encode_line:
  assumes "wf_person p"
  shows "split_line (encode_line p) = fields_of p"
proof -
  have "rstrip (encode_line p) = join_sep CHR ''|'' (fields_of p)"
    using assms
    by (simp add: encode_line_eq fields_of_def wf_person_fields rstrip_nonspace_end)
  moreover have "\<forall>f \<in> set (fields_of p). CHR ''|'' \<notin> set f"
    using assms by (simp add: wf_person_fields wf_field_def fields_of_def)
  moreover have "fields_of p \<noteq> []" by (simp add: fields_of_def)
  ultimately show ?thesis
    by (simp add: split_line_def split_join_sep)
qed

lemma py_lines_encode_file:
  "wf_roster ps \<Longrightarrow> py_lines (encode_file ps) = map encode_line ps"
proof (induction ps)
  case (Cons p ps)
  then have "nl \<notin> set (join_sep CHR ''|'' (fields_of p))"
    by (simp add: wf_roster_def wf_person_fields wf_field_def fields_of_def nl_def)
  with Cons show ?case
    by (simp add: encode_file_def encode_line_def py_lines_Cons_line wf_roster_def)
qed (simp add: encode_file_def)

lemma record_of_fields_person [simp]: "record_of_fields (fields_of p) = Inr (row_of p)"
  by (simp add: record_of_fields_eq fields_of_def row_of_def p_full_name_def fields_row_def)

lemma fields_row_fields_of [simp]: "fields_row (fields_of p) = row_of p"
  by (simp add: fields_row_def fields_of_def row_of_def p_full_name_def)

lemma record_of_encode_line:
  "wf_person p \<Longrightarrow> record_of_fields (split_line (encode_line p)) = Inr (row_of p)"
  by (simp add: split_line_encode_line)

subsection \<open>\<^verbatim>\<open>all_data\<close> on any text\<close>

lemma all_data_Inr_iff:
  "all_data text = Inr rows \<longleftrightarrow>
   list_all2 (\<lambda>line r. record_of_fields (split_line line) = Inr r) (py_lines text) rows"
  using py_for_collect[of "\<lambda>line. record_of_fields (split_line line)" "[]" "py_lines text" rows]
  by (simp add: all_data_def all_data_step_def[abs_def])

text \<open>A successful run: every line has five fields, and the rows are their projections.\<close>

lemma all_data_Inr_D:
  assumes "all_data text = Inr rows"
  shows "\<forall>line \<in> set (py_lines text). 5 \<le> length (split_line line)"
    and "rows = map (\<lambda>line. fields_row (split_line line)) (py_lines text)"
proof -
  from assms have "list_all2 (\<lambda>line r. 5 \<le> length (split_line line) \<and>
      r = fields_row (split_line line)) (py_lines text) rows"
    by (simp add: all_data_Inr_iff record_of_fields_Inr_iff)
  then show "\<forall>line \<in> set (py_lines text). 5 \<le> length (split_line line)"
    and "rows = map (\<lambda>line. fields_row (split_line line)) (py_lines text)"
    by (simp_all add: list_all2_eq_map)
qed

lemma all_data_isl_iff:
  "isl (all_data text) \<longleftrightarrow> (\<exists>line \<in> set (py_lines text). length (split_line line) < 5)"
  unfolding all_data_def
  by (rule py_for_Inl_iff) (simp add: all_data_step_def isl_record_of_fields)

lemma all_data_length:
  "all_data text = Inr rows \<Longrightarrow> length rows = length (py_lines text)"
  by (simp add: all_data_Inr_iff list_all2_lengthD)

subsection \<open>\<^verbatim>\<open>all_data\<close> on an encoded roster\<close>

lemma all_data_encode:
  assumes "wf_roster ps"
  shows "all_data (encode_file ps) = Inr (map row_of ps)"
proof -
  have "\<forall>p \<in> set ps. record_of_fields (split_line (encode_line p)) = Inr (row_of p)"
    using assms by (simp add: wf_roster_def list_all_iff record_of_encode_line)
  then show ?thesis
    using assms
    by (simp add: all_data_Inr_iff py_lines_encode_file list_all2_map1 list_all2_map2
        list.rel_refl_strong)
qed

lemmas example_defs = harry_def ron_def binns_def snape_def

lemma wf_examples [simp]:
  "wf_person harry" "wf_person ron" "wf_person binns" "wf_person snape"
  by (simp_all add: wf_person_def fields_of_def wf_field_def example_defs nl_def rstrip_def
      py_isspace_def)

lemma wf_roster_simps [simp]:
  "wf_roster []" "wf_roster (p # ps) \<longleftrightarrow> wf_person p \<and> wf_roster ps"
  by (simp_all add: wf_roster_def)

subsection \<open>Properties\<close>

text \<open>
  C7: \<^verbatim>\<open>all_data\<close> succeeds exactly when every line of the file has at least five
  \<^verbatim>\<open>|\<close>-separated fields after \<^verbatim>\<open>rstrip\<close>, and then returns one row per line, in
  file order: the first two fields joined by a space, then the third, fourth and fifth.
\<close>

theorem all_data_characterisation:
  "all_data text = Inr rows \<longleftrightarrow>
   (\<forall>line \<in> set (py_lines text). 5 \<le> length (split_line line)) \<and>
   rows = map (\<lambda>line. fields_row (split_line line)) (py_lines text)"
proof
  assume "all_data text = Inr rows"
  then show "(\<forall>line \<in> set (py_lines text). 5 \<le> length (split_line line)) \<and>
      rows = map (\<lambda>line. fields_row (split_line line)) (py_lines text)"
    by (blast dest: all_data_Inr_D)
next
  assume "(\<forall>line \<in> set (py_lines text). 5 \<le> length (split_line line)) \<and>
      rows = map (\<lambda>line. fields_row (split_line line)) (py_lines text)"
  then have "list_all2 (\<lambda>line r. 5 \<le> length (split_line line) \<and> r = fields_row (split_line line))
      (py_lines text) rows"
    by (simp add: list_all2_eq_map)
  then show "all_data text = Inr rows"
    by (simp add: all_data_Inr_iff record_of_fields_Inr_iff)
qed

theorem all_data_characterisation_witness:
  "list_all (\<lambda>line. 5 \<le> length (split_line line)) (py_lines ''Harry|Potter|Gryffindor|McGonagall|Fall 2015 \<newline>'') \<and>
   all_data ''Harry|Potter|Gryffindor|McGonagall|Fall 2015 \<newline>'' =
     Inr [(''Harry Potter'', ''Gryffindor'', ''McGonagall'', ''Fall 2015'')]"
proof -
  have ok: "(\<forall>line \<in> set (py_lines ''Harry|Potter|Gryffindor|McGonagall|Fall 2015 \<newline>''). 5 \<le> length (split_line line)) \<and>
      [(''Harry Potter'', ''Gryffindor'', ''McGonagall'', ''Fall 2015'')] =
      map (\<lambda>line. fields_row (split_line line)) (py_lines ''Harry|Potter|Gryffindor|McGonagall|Fall 2015 \<newline>'')"
    by code_simp
  show ?thesis using all_data_characterisation[THEN iffD2, OF ok] ok by (simp add: list_all_iff)
qed

text \<open>
  C22: reading back a well-formed roster file line by line, \<^verbatim>\<open>line.rstrip().split('|')\<close>
  returns, for each line, exactly the five fields the person's line was written from.
\<close>

theorem roster_file_roundtrip:
  "wf_roster ps \<Longrightarrow> map split_line (py_lines (encode_file ps)) = map fields_of ps"
  by (simp add: py_lines_encode_file wf_roster_def list_all_iff split_line_encode_line)

theorem roster_file_roundtrip_witness:
  "wf_roster [harry, snape] \<and>
   map split_line (py_lines (encode_file [harry, snape])) = map fields_of [harry, snape]"
proof -
  have wf: "wf_roster [harry, snape]" by simp
  show ?thesis using roster_file_roundtrip[OF wf] wf by blast
qed

subsection \<open>From text back to persons\<close>

lemma fields_of_person_of_fields:
  "length d = 5 \<Longrightarrow> fields_of (person_of_fields d) = d"
  by (rule nth_equalityI)
    (auto simp: fields_of_def person_of_fields_def less_Suc_eq numeral_eq_Suc)

lemma last_split_line_stripped:
  "rstrip (last (split_line line)) = last (split_line line)"
proof -
  let ?X = "split_sep CHR ''|'' (rstrip line)"
  have "?X = butlast ?X @ [rstrip (last ?X)]"
    using split_sep_rstrip[of "CHR ''|''" "rstrip line"] by simp
  then have "last ?X = last (butlast ?X @ [rstrip (last ?X)])" by (rule arg_cong)
  then show ?thesis by (simp add: split_line_def)
qed

text \<open>A line of five fields with no whitespace before its newline is a person's line.\<close>

lemma person_of_line:
  assumes "length (split_line line) = 5" and "rstrip line = butlast line"
    and "line \<noteq> []" and "last line = nl" and "nl \<notin> set (butlast line)"
  shows "wf_person (person_of_fields (split_line line)) \<and>
    encode_line (person_of_fields (split_line line)) = line"
proof -
  let ?d = "split_line line"
  have f: "fields_of (person_of_fields ?d) = ?d" by (rule fields_of_person_of_fields[OF assms(1)])
  have "\<forall>x \<in> set ?d. wf_field x"
    using assms(2,5) split_sep_fields_no_sep[of _ "CHR ''|''" "rstrip line"]
      split_sep_fields_subset[of _ "CHR ''|''" "rstrip line"]
    by (fastforce simp: wf_field_def split_line_def)
  moreover have "p_cohort (person_of_fields ?d) = last ?d"
  proof -
    have "split_line line \<noteq> []" using assms(1) by auto
    then show ?thesis using assms(1) by (simp add: person_of_fields_def last_conv_nth)
  qed
  ultimately have wf: "wf_person (person_of_fields ?d)"
    using f last_split_line_stripped[of line] by (simp add: wf_person_def list_all_iff)
  have "encode_line (person_of_fields ?d) = rstrip line @ [nl]"
    using f by (simp add: encode_line_def split_line_def join_split_sep)
  also have "\<dots> = line" using assms(2,3,4) append_butlast_last_id[of line] by simp
  finally show ?thesis using wf by simp
qed

text \<open>
  C27: the converse round trip of the file format: a text that ends with a newline and
  whose every line has five \<^verbatim>\<open>|\<close>-separated fields and no whitespace before its
  newline is the file of a well-formed roster, namely of the persons the parser reads
  from it.
\<close>

theorem roster_text_roundtrip:
  assumes "text = [] \<or> last text = nl"
    and "\<forall>line \<in> set (py_lines text). length (split_line line) = 5 \<and> rstrip line = butlast line"
  shows "wf_roster (map (\<lambda>line. person_of_fields (split_line line)) (py_lines text)) \<and>
    encode_file (map (\<lambda>line. person_of_fields (split_line line)) (py_lines text)) = text"
proof -
  have each: "\<forall>line \<in> set (py_lines text). wf_person (person_of_fields (split_line line)) \<and>
      encode_line (person_of_fields (split_line line)) = line"
    using assms py_lines_shape[OF assms(1)] person_of_line by blast
  then have "map (\<lambda>line. encode_line (person_of_fields (split_line line))) (py_lines text) = py_lines text"
    by (simp add: map_idI)
  then have "encode_file (map (\<lambda>line. person_of_fields (split_line line)) (py_lines text)) = text"
    by (simp add: encode_file_def comp_def py_lines_def concat_lines_from)
  with each show ?thesis by (simp add: wf_roster_def list_all_iff)
qed

theorem roster_text_roundtrip_witness:
  "wf_roster (map (\<lambda>line. person_of_fields (split_line line))
      (py_lines ''Harry|Potter|Gryffindor|McGonagall|Fall 2015\<newline>Cuthbert|Binns|||G\<newline>'')) \<and>
   encode_file (map (\<lambda>line. person_of_fields (split_line line))
      (py_lines ''Harry|Potter|Gryffindor|McGonagall|Fall 2015\<newline>Cuthbert|Binns|||G\<newline>'')) =
     ''Harry|Potter|Gryffindor|McGonagall|Fall 2015\<newline>Cuthbert|Binns|||G\<newline>''"
proof -
  have a: "''Harry|Potter|Gryffindor|McGonagall|Fall 2015\<newline>Cuthbert|Binns|||G\<newline>'' = [] \<or>
      last ''Harry|Potter|Gryffindor|McGonagall|Fall 2015\<newline>Cuthbert|Binns|||G\<newline>'' = nl"
    by (simp add: nl_def)
  have b: "\<forall>line \<in> set (py_lines ''Harry|Potter|Gryffindor|McGonagall|Fall 2015\<newline>Cuthbert|Binns|||G\<newline>'').
      length (split_line line) = 5 \<and> rstrip line = butlast line"
    by code_simp
  show ?thesis by (rule roster_text_roundtrip[OF a b])
qed

text \<open>
  \<^verbatim>\<open>all_data\<close> on a permutation of the lines raises on the same files and returns
  a permutation of the rows: each row depends on its own line only.
\<close>

lemma all_data_line_order:
  assumes "mset (py_lines t1) = mset (py_lines t2)"
  shows "isl (all_data t1) \<longleftrightarrow> isl (all_data t2)"
    and "all_data t1 = Inr rows1 \<Longrightarrow> all_data t2 = Inr rows2 \<Longrightarrow> mset rows1 = mset rows2"
proof -
  have set_eq: "set (py_lines t1) = set (py_lines t2)" using mset_eq_setD[OF assms] .
  then show "isl (all_data t1) \<longleftrightarrow> isl (all_data t2)" by (simp add: all_data_isl_iff)
  assume "all_data t1 = Inr rows1" and "all_data t2 = Inr rows2"
  then have "rows1 = map (\<lambda>line. fields_row (split_line line)) (py_lines t1)"
    and "rows2 = map (\<lambda>line. fields_row (split_line line)) (py_lines t2)"
    by (simp_all add: all_data_Inr_D(2))
  with assms show "mset rows1 = mset rows2" by simp
qed

lemma mset_names_where_perm:
  "mset rows1 = mset rows2 \<Longrightarrow> mset (names_where P rows1) = mset (names_where P rows2)"
  by (simp add: names_where_def)

end
