(* ===== verification/Houses.thy ===== *)
theory Houses
  imports Roster
begin

text \<open>
  The two house queries of \<^verbatim>\<open>src/cohort_data.py\<close>: \<^verbatim>\<open>all_houses\<close>
  (lines 4--30), the set of non-empty house fields, read from the raw line without
  \<^verbatim>\<open>rstrip\<close>; and \<^verbatim>\<open>all_names_by_house\<close> (lines 80--146), the seven
  rosters filled by a priority chain of tests and sorted at the end. Each is related to
  \<open>all_data\<close> on any text where \<open>all_data\<close> succeeds, and so to the abstract roster.
\<close>

subsection \<open>\<^verbatim>\<open>all_houses\<close>\<close>

definition all_houses_step :: "string set \<Rightarrow> string \<Rightarrow> string set py_result" where
  "all_houses_step houses line =
     (case py_index (split_sep CHR ''|'' line) 2 of
        Inl e \<Rightarrow> Inl e
      | Inr house \<Rightarrow> Inr (if house \<noteq> [] then insert house houses else houses))"

definition all_houses :: "string \<Rightarrow> string set py_result" where
  "all_houses text = py_for all_houses_step {} (py_lines text)"

subsection \<open>\<^verbatim>\<open>all_names_by_house\<close>\<close>

record rosters =
  dumbledores_army :: "string list"
  gryffindor :: "string list"
  hufflepuff :: "string list"
  ravenclaw :: "string list"
  slytherin :: "string list"
  ghosts :: "string list"
  instructors :: "string list"

definition empty_rosters :: rosters where
  "empty_rosters =
     \<lparr>dumbledores_army = [], gryffindor = [], hufflepuff = [], ravenclaw = [], slytherin = [],
      ghosts = [], instructors = []\<rparr>"

text \<open>\<^verbatim>\<open>rosters = [dumbledores_army, gryffindor, ..., instructors]\<close>\<close>

definition rosters_list :: "rosters \<Rightarrow> string list list" where
  "rosters_list r =
     [dumbledores_army r, gryffindor r, hufflepuff r, ravenclaw r, slytherin r, ghosts r,
      instructors r]"

text \<open>The \<^verbatim>\<open>if\<close>/\<^verbatim>\<open>elif\<close> chain of lines 128--141.\<close>

definition file_by_house :: "string \<Rightarrow> string \<Rightarrow> string \<Rightarrow> rosters \<Rightarrow> rosters" where
  "file_by_house full_name house cohort r =
     (if house = ''Dumbledore's Army'' then r\<lparr>dumbledores_army := dumbledores_army r @ [full_name]\<rparr>
      else if house = ''Gryffindor'' then r\<lparr>gryffindor := gryffindor r @ [full_name]\<rparr>
      else if house = ''Hufflepuff'' then r\<lparr>hufflepuff := hufflepuff r @ [full_name]\<rparr>
      else if house = ''Ravenclaw'' then r\<lparr>ravenclaw := ravenclaw r @ [full_name]\<rparr>
      else if house = ''Slytherin'' then r\<lparr>slytherin := slytherin r @ [full_name]\<rparr>
      else if cohort = ''G'' then r\<lparr>ghosts := ghosts r @ [full_name]\<rparr>
      else if cohort = ''I'' then r\<lparr>instructors := instructors r @ [full_name]\<rparr>
      else r)"

definition names_by_house_step :: "rosters \<Rightarrow> string \<Rightarrow> rosters py_result" where
  "names_by_house_step r line =
     (case record_of_fields (split_line line) of
        Inl e \<Rightarrow> Inl e
      | Inr (full_name, house, advisor, cohort) \<Rightarrow> Inr (file_by_house full_name house cohort r))"

definition all_names_by_house :: "string \<Rightarrow> string list list py_result" where
  "all_names_by_house text =
     (case py_for names_by_house_step empty_rosters (py_lines text) of
        Inl e \<Rightarrow> Inl e
      | Inr r \<Rightarrow> Inr (map sort (rosters_list r)))"

subsection \<open>Abstract specifications\<close>

definition house_names :: "string list" where
  "house_names = [''Dumbledore's Army'', ''Gryffindor'', ''Hufflepuff'', ''Ravenclaw'', ''Slytherin'']"

definition houses_of :: "row list \<Rightarrow> string set" where
  "houses_of rows = (\<lambda>r. row_house r) ` set rows - {[]}"

text \<open>
  The rosters as the spec describes them: one per house name, then those of no house
  with cohort \<^verbatim>\<open>G\<close> and with cohort \<^verbatim>\<open>I\<close>, each sorted.
\<close>

definition rosters_spec :: "row list \<Rightarrow> string list list" where
  "rosters_spec rows =
     map (\<lambda>h. sort (names_where (\<lambda>r. row_house r = h) rows)) house_names @
     [sort (names_where (\<lambda>r. row_house r \<notin> set house_names \<and> row_cohort r = ''G'') rows),
      sort (names_where (\<lambda>r. row_house r \<notin> set house_names \<and> row_cohort r = ''I'') rows)]"

definition dropped :: "row \<Rightarrow> bool" where
  "dropped r \<longleftrightarrow> row_house r \<notin> set house_names \<and> row_cohort r \<noteq> ''G'' \<and> row_cohort r \<noteq> ''I''"

subsection \<open>\<^verbatim>\<open>all_houses\<close>: invariant, errors, refinement\<close>

lemma all_houses_step_nonempty:
  "[] \<notin> houses \<Longrightarrow> all_houses_step houses line = Inr houses' \<Longrightarrow> [] \<notin> houses'"
  by (auto simp: all_houses_step_def split: sum.splits if_splits)

lemma fold_insert_nonempty:
  "fold (\<lambda>x S. if h x \<noteq> [] then insert (h x) S else S) xs S0 = S0 \<union> (h ` set xs - {[]})"
  by (induction xs arbitrary: S0) auto

text \<open>Where every line has five fields, the unstripped third field is the row's house.\<close>

lemma house_field_unstripped:
  assumes "5 \<le> length (split_line line)"
  shows "3 \<le> length (split_sep CHR ''|'' line)"
    and "split_sep CHR ''|'' line ! 2 = row_house (fields_row (split_line line))"
  using assms
  by (simp_all add: split_line_def length_split_sep_rstrip nth_split_sep_rstrip fields_row_def)

lemma all_houses_step_ok:
  assumes "5 \<le> length (split_line line)"
  shows "all_houses_step S line =
    Inr (if row_house (fields_row (split_line line)) \<noteq> []
         then insert (row_house (fields_row (split_line line))) S else S)"
  using house_field_unstripped[OF assms] by (simp add: all_houses_step_def)

lemma all_houses_all_data:
  assumes "all_data text = Inr rows"
  shows "all_houses text = Inr (houses_of rows)"
proof -
  note ok = all_data_Inr_D[OF assms]
  let ?h = "\<lambda>line. row_house (fields_row (split_line line))"
  have "all_houses text =
      Inr (fold (\<lambda>line S. if ?h line \<noteq> [] then insert (?h line) S else S) (py_lines text) {})"
    unfolding all_houses_def
    by (rule py_for_fold) (use ok(1) in \<open>simp add: all_houses_step_ok\<close>)
  then show ?thesis
    by (simp add: fold_insert_nonempty ok(2) houses_of_def image_image)
qed

subsection \<open>\<^verbatim>\<open>all_names_by_house\<close>: shape, refinement, counting\<close>

lemma all_names_by_house_Inr_D:
  "all_names_by_house text = Inr rs \<Longrightarrow>
   \<exists>r. py_for names_by_house_step empty_rosters (py_lines text) = Inr r \<and>
        rs = map sort (rosters_list r)"
  by (auto simp: all_names_by_house_def split: sum.splits)

lemma fold_file_by_house:
  "fold (\<lambda>r acc. file_by_house (row_name r) (row_house r) (row_cohort r) acc) rows r0 =
   r0\<lparr>dumbledores_army := dumbledores_army r0 @ names_where (\<lambda>r. row_house r = ''Dumbledore's Army'') rows,
      gryffindor := gryffindor r0 @ names_where (\<lambda>r. row_house r = ''Gryffindor'') rows,
      hufflepuff := hufflepuff r0 @ names_where (\<lambda>r. row_house r = ''Hufflepuff'') rows,
      ravenclaw := ravenclaw r0 @ names_where (\<lambda>r. row_house r = ''Ravenclaw'') rows,
      slytherin := slytherin r0 @ names_where (\<lambda>r. row_house r = ''Slytherin'') rows,
      ghosts := ghosts r0 @
        names_where (\<lambda>r. row_house r \<notin> set house_names \<and> row_cohort r = ''G'') rows,
      instructors := instructors r0 @
        names_where (\<lambda>r. row_house r \<notin> set house_names \<and> row_cohort r = ''I'') rows\<rparr>"
  by (induction rows arbitrary: r0)
    (auto simp: file_by_house_def names_where_def house_names_def)

lemma all_names_by_house_all_data:
  assumes "all_data text = Inr rows"
  shows "all_names_by_house text = Inr (rosters_spec rows)"
proof -
  note ok = all_data_Inr_D[OF assms]
  let ?g = "\<lambda>r acc. file_by_house (row_name r) (row_house r) (row_cohort r) acc"
  have "py_for names_by_house_step empty_rosters (py_lines text) =
      Inr (fold (\<lambda>line. ?g (fields_row (split_line line))) (py_lines text) empty_rosters)"
    by (rule py_for_fold)
      (use ok(1) in \<open>simp add: names_by_house_step_def record_of_fields_eq split: prod.split\<close>)
  also have "\<dots> = Inr (fold ?g rows empty_rosters)"
    by (simp add: ok(2) fold_map comp_def)
  finally show ?thesis
    by (simp add: all_names_by_house_def fold_file_by_house rosters_list_def rosters_spec_def
        empty_rosters_def house_names_def)
qed

lemma rosters_spec_count:
  "sum_list (map length (rosters_spec rows)) + length (filter dropped rows) = length rows"
  by (induction rows) (auto simp: rosters_spec_def names_where_def dropped_def house_names_def)

lemma all_names_by_house_isl_iff:
  "isl (all_names_by_house text) \<longleftrightarrow> isl (all_data text)"
proof -
  have "isl (py_for names_by_house_step empty_rosters (py_lines text)) \<longleftrightarrow>
      (\<exists>line \<in> set (py_lines text). length (split_line line) < 5)"
    by (rule py_for_Inl_iff)
      (simp add: names_by_house_step_def isl_record_of_fields[symmetric] split: sum.split)
  then show ?thesis
    by (simp add: all_data_isl_iff all_names_by_house_def split: sum.split)
qed

lemma all_houses_encode:
  "wf_roster ps \<Longrightarrow> all_houses (encode_file ps) = Inr (houses_of (map row_of ps))"
  by (rule all_houses_all_data[OF all_data_encode])

lemma all_names_by_house_encode:
  "wf_roster ps \<Longrightarrow> all_names_by_house (encode_file ps) = Inr (rosters_spec (map row_of ps))"
  by (rule all_names_by_house_all_data[OF all_data_encode])

subsection \<open>Properties\<close>

text \<open>
  C2: on a well-formed roster file, \<^verbatim>\<open>all_names_by_house\<close> returns the seven
  rosters of the spec in order: for each of the five houses the sorted names of the
  persons of that house, then the sorted names of the persons of no listed house whose
  cohort is \<^verbatim>\<open>G\<close>, then of those whose cohort is \<^verbatim>\<open>I\<close>. A house beats the
  ghost and instructor markers.
\<close>

theorem all_names_by_house_roster:
  assumes "wf_roster ps"
  shows "all_names_by_house (encode_file ps) =
    Inr (map (\<lambda>h. sort (map p_full_name (filter (\<lambda>p. p_house p = h) ps))) house_names @
      [sort (map p_full_name (filter (\<lambda>p. p_house p \<notin> set house_names \<and> p_cohort p = ''G'') ps)),
       sort (map p_full_name (filter (\<lambda>p. p_house p \<notin> set house_names \<and> p_cohort p = ''I'') ps))])"
  using all_names_by_house_encode[OF assms]
  by (simp add: rosters_spec_def names_where_def filter_map comp_def row_of_def)

theorem all_names_by_house_roster_witness:
  "wf_roster [ron, binns, harry, snape] \<and>
   all_names_by_house (encode_file [ron, binns, harry, snape]) =
     Inr [[], [''Harry Potter'', ''Ron Weasley''], [], [], [], [''Cuthbert Binns''], [''Severus Snape'']]"
proof -
  have wf: "wf_roster [ron, binns, harry, snape]" by simp
  show ?thesis
    by (rule conjI[OF wf])
      (use all_names_by_house_roster[OF wf] in \<open>simp add: example_defs house_names_def p_full_name_def\<close>)
qed

text \<open>
  C6: on a well-formed roster file, \<^verbatim>\<open>all_houses\<close> returns exactly the set of the
  non-empty house names of its persons.
\<close>

theorem all_houses_roster:
  "wf_roster ps \<Longrightarrow> all_houses (encode_file ps) = Inr (p_house ` set ps - {[]})"
  using all_houses_encode by (simp add: houses_of_def image_image row_of_def)

theorem all_houses_roster_witness:
  "wf_roster [harry, binns, ron] \<and>
   all_houses (encode_file [harry, binns, ron]) = Inr {''Gryffindor''}"
proof -
  have wf: "wf_roster [harry, binns, ron]" by simp
  show ?thesis
    by (rule conjI[OF wf]) (use all_houses_roster[OF wf] in \<open>auto simp: example_defs\<close>)
qed

text \<open>
  C10: whatever the file, a set that \<^verbatim>\<open>all_houses\<close> returns never holds the empty
  string.
\<close>

theorem all_houses_no_empty:
  "all_houses text = Inr S \<Longrightarrow> [] \<notin> S"
  unfolding all_houses_def
  by (erule py_for_invariant[where P = "\<lambda>S. [] \<notin> S"]) (auto dest: all_houses_step_nonempty)

theorem all_houses_no_empty_witness:
  "all_houses ''a|b||x|y\<newline>c|d|Ravenclaw\<newline>'' = Inr {''Ravenclaw\<newline>''} \<and>
   [] \<notin> {''Ravenclaw\<newline>''}"
proof -
  have run: "all_houses ''a|b||x|y\<newline>c|d|Ravenclaw\<newline>'' = Inr {''Ravenclaw\<newline>''}"
    by (simp add: all_houses_def all_houses_step_def py_lines_def nl_def)
  show ?thesis using all_houses_no_empty[OF run] run by simp
qed

text \<open>
  C11: whatever the file, \<^verbatim>\<open>all_names_by_house\<close> returns exactly seven lists, each
  sorted in ascending order.
\<close>

theorem all_names_by_house_shape:
  "all_names_by_house text = Inr rs \<Longrightarrow> length rs = 7 \<and> (\<forall>xs \<in> set rs. sorted xs)"
  by (auto simp: rosters_list_def dest!: all_names_by_house_Inr_D)

theorem all_names_by_house_shape_witness:
  "all_names_by_house (encode_file [harry, snape]) =
     Inr [[], [''Harry Potter''], [], [], [], [], [''Severus Snape'']] \<and>
   length [[], [''Harry Potter''], [], [], [], [], [''Severus Snape'']] = 7"
proof -
  have run: "all_names_by_house (encode_file [harry, snape]) =
      Inr [[], [''Harry Potter''], [], [], [], [], [''Severus Snape'']]"
    by code_simp
  show ?thesis using all_names_by_house_shape[OF run] run by simp
qed

text \<open>
  C12: when every line parses, the seven rosters together with the records that fall in
  no roster (no listed house, cohort neither \<^verbatim>\<open>G\<close> nor \<^verbatim>\<open>I\<close>) account for
  every record of the file exactly once.
\<close>

theorem all_names_by_house_count:
  assumes "all_data text = Inr rows" and "all_names_by_house text = Inr rs"
  shows "sum_list (map length rs) + length (filter dropped rows) = length (py_lines text)"
  using assms rosters_spec_count[of rows] all_names_by_house_all_data[OF assms(1)]
    all_data_length[OF assms(1)]
  by simp

theorem all_names_by_house_count_witness:
  "all_data ''A|B|Gryffindor|x|G\<newline>C|D|||Fall 2015\<newline>'' =
     Inr [(''A B'', ''Gryffindor'', ''x'', ''G''), (''C D'', [], [], ''Fall 2015'')] \<and>
   all_names_by_house ''A|B|Gryffindor|x|G\<newline>C|D|||Fall 2015\<newline>'' =
     Inr [[], [''A B''], [], [], [], [], []] \<and>
   1 + 1 = length (py_lines ''A|B|Gryffindor|x|G\<newline>C|D|||Fall 2015\<newline>'')"
proof -
  have d: "all_data ''A|B|Gryffindor|x|G\<newline>C|D|||Fall 2015\<newline>'' =
     Inr [(''A B'', ''Gryffindor'', ''x'', ''G''), (''C D'', [], [], ''Fall 2015'')]"
    by code_simp
  have r: "all_names_by_house ''A|B|Gryffindor|x|G\<newline>C|D|||Fall 2015\<newline>'' =
     Inr [[], [''A B''], [], [], [], [], []]"
    by code_simp
  show ?thesis using all_names_by_house_count[OF d r] d r by (simp add: dropped_def house_names_def)
qed

text \<open>
  C21: \<^verbatim>\<open>all_houses\<close> raises \<^verbatim>\<open>IndexError\<close> exactly when some line of the file has
  fewer than three \<^verbatim>\<open>|\<close>-separated fields; it needs no more than three.
\<close>

theorem all_houses_error:
  "isl (all_houses text) \<longleftrightarrow> (\<exists>line \<in> set (py_lines text). length (split_sep CHR ''|'' line) < 3)"
  unfolding all_houses_def
  by (rule py_for_Inl_iff) (simp add: all_houses_step_def py_index_def)

text \<open>
  When every line has a third field the loop runs to the end and collects the non-empty
  ones; otherwise it raises. Together, \<^verbatim>\<open>all_houses\<close> as a function of its lines.
\<close>

lemma all_houses_ok:
  assumes ok: "\<forall>line \<in> set (py_lines text). 3 \<le> length (split_sep CHR ''|'' line)"
  shows "all_houses text = Inr ((\<lambda>line. split_sep CHR ''|'' line ! 2) ` set (py_lines text) - {[]})"
proof -
  let ?h = "\<lambda>line. split_sep CHR ''|'' line ! 2"
  have "all_houses text =
      Inr (fold (\<lambda>line S. if ?h line \<noteq> [] then insert (?h line) S else S) (py_lines text) {})"
    unfolding all_houses_def
  proof (rule py_for_fold)
    fix s x assume "x \<in> set (py_lines text)"
    with ok have "2 < length (split_sep CHR ''|'' x)" by fastforce
    then show "all_houses_step s x = Inr (if ?h x \<noteq> [] then insert (?h x) s else s)"
      by (simp add: all_houses_step_def)
  qed
  then show ?thesis by (simp add: fold_insert_nonempty)
qed

lemma all_houses_eq:
  "all_houses text =
     (if \<forall>line \<in> set (py_lines text). 3 \<le> length (split_sep CHR ''|'' line)
      then Inr ((\<lambda>line. split_sep CHR ''|'' line ! 2) ` set (py_lines text) - {[]})
      else Inl IndexError)"
proof (cases "\<forall>line \<in> set (py_lines text). 3 \<le> length (split_sep CHR ''|'' line)")
  case True
  then show ?thesis by (simp add: all_houses_ok)
next
  case False
  have "isl (all_houses text) \<longleftrightarrow>
      (\<exists>line \<in> set (py_lines text). length (split_sep CHR ''|'' line) < 3)"
    unfolding all_houses_def
    by (rule py_for_Inl_iff) (simp add: all_houses_step_def py_index_def)
  with False have "isl (all_houses text)" by (auto simp: not_le)
  with False show ?thesis by (simp add: isl_py_error)
qed

text \<open>
  C24: on any text, \<^verbatim>\<open>all_houses\<close> succeeds exactly when every line has at least
  three \<^verbatim>\<open>|\<close>-separated fields, and then returns the non-empty third fields of the
  lines as read, without \<^verbatim>\<open>rstrip\<close>: on a line of exactly three fields the house
  keeps the line's newline.
\<close>

theorem all_houses_characterisation:
  "all_houses text = Inr S \<longleftrightarrow>
   (\<forall>line \<in> set (py_lines text). 3 \<le> length (split_sep CHR ''|'' line)) \<and>
   S = (\<lambda>line. split_sep CHR ''|'' line ! 2) ` set (py_lines text) - {[]}"
  unfolding all_houses_eq by (simp add: eq_commute[of S])

theorem all_houses_characterisation_witness:
  "list_all (\<lambda>line. 3 \<le> length (split_sep CHR ''|'' line)) (py_lines ''a|b|Ravenclaw\<newline>c|d|\<newline>'') \<and>
   all_houses ''a|b|Ravenclaw\<newline>c|d|\<newline>'' = Inr {''Ravenclaw\<newline>'', ''\<newline>''}"
proof -
  have ok: "(\<forall>line \<in> set (py_lines ''a|b|Ravenclaw\<newline>c|d|\<newline>''). 3 \<le> length (split_sep CHR ''|'' line)) \<and>
      {''Ravenclaw\<newline>'', ''\<newline>''} =
        (\<lambda>line. split_sep CHR ''|'' line ! 2) ` set (py_lines ''a|b|Ravenclaw\<newline>c|d|\<newline>'') - {[]}"
    by (simp add: py_lines_def nl_def insert_commute)
  show ?thesis
    using all_houses_characterisation[THEN iffD2, OF ok] ok by (simp add: list_all_iff)
qed

text \<open>
  C30: on any text, \<^verbatim>\<open>all_names_by_house\<close> is the spec's seven rosters computed from
  the rows of \<^verbatim>\<open>all_data\<close>: it raises exactly when \<^verbatim>\<open>all_data\<close> raises, and
  otherwise its if/elif chain and sort give \<open>rosters_spec\<close> of the rows.
\<close>

theorem all_names_by_house_via_all_data:
  "all_names_by_house text = map_sum id rosters_spec (all_data text)"
  by (rule py_result_refine[OF all_names_by_house_isl_iff all_names_by_house_all_data])

text \<open>
  C31: \<^verbatim>\<open>all_houses\<close> depends only on which lines the file has: reordering the lines,
  or repeating one, gives the same set of houses or the same error.
\<close>

theorem all_houses_line_order:
  assumes "set (py_lines t1) = set (py_lines t2)"
  shows "all_houses t1 = all_houses t2"
  using assms by (simp only: all_houses_eq)

theorem all_houses_line_order_witness:
  "set (py_lines ''a|b|Gryffindor\<newline>c|d|Slytherin\<newline>'') =
     set (py_lines ''c|d|Slytherin\<newline>a|b|Gryffindor\<newline>c|d|Slytherin\<newline>'') \<and>
   all_houses ''a|b|Gryffindor\<newline>c|d|Slytherin\<newline>'' =
     all_houses ''c|d|Slytherin\<newline>a|b|Gryffindor\<newline>c|d|Slytherin\<newline>''"
proof -
  have e: "set (py_lines ''a|b|Gryffindor\<newline>c|d|Slytherin\<newline>'') =
      set (py_lines ''c|d|Slytherin\<newline>a|b|Gryffindor\<newline>c|d|Slytherin\<newline>'')"
    by (simp add: py_lines_def nl_def insert_commute)
  show ?thesis using all_houses_line_order[OF e] e by simp
qed

lemma rosters_spec_line_order:
  assumes m: "mset rows1 = mset rows2"
  shows "rosters_spec rows1 = rosters_spec rows2"
proof -
  have "\<And>P. sort (names_where P rows1) = sort (names_where P rows2)"
    by (rule sort_cong_mset) (rule mset_names_where_perm[OF m])
  then show ?thesis by (simp only: rosters_spec_def)
qed

text \<open>
  C34: \<^verbatim>\<open>all_names_by_house\<close> does not depend on the order of the lines: two files
  whose lines are a permutation of each other give the same seven rosters, or the same
  error, because each roster is sorted before it is returned.
\<close>

theorem all_names_by_house_line_order:
  assumes "mset (py_lines t1) = mset (py_lines t2)"
  shows "all_names_by_house t1 = all_names_by_house t2"
proof (rule py_result_eqI)
  show "isl (all_names_by_house t1) \<longleftrightarrow> isl (all_names_by_house t2)"
    using all_data_line_order(1)[OF assms] by (simp add: all_names_by_house_isl_iff)
next
  fix rs1 rs2
  assume r1: "all_names_by_house t1 = Inr rs1" and r2: "all_names_by_house t2 = Inr rs2"
  obtain rows1 where d1: "all_data t1 = Inr rows1"
    using r1 all_names_by_house_isl_iff[of t1] by (cases "all_data t1") auto
  obtain rows2 where d2: "all_data t2 = Inr rows2"
    using r2 all_names_by_house_isl_iff[of t2] by (cases "all_data t2") auto
  have "rs1 = rosters_spec rows1" using r1 all_names_by_house_all_data[OF d1] by simp
  also have "\<dots> = rosters_spec rows2"
    by (rule rosters_spec_line_order[OF all_data_line_order(2)[OF assms d1 d2]])
  also have "\<dots> = rs2" using r2 all_names_by_house_all_data[OF d2] by simp
  finally show "rs1 = rs2" .
qed

theorem all_names_by_house_line_order_witness:
  "mset (py_lines ''A|B|Gryffindor|x|Fall 2015\<newline>C|D|Gryffindor|y|Fall 2015\<newline>'') =
     mset (py_lines ''C|D|Gryffindor|y|Fall 2015\<newline>A|B|Gryffindor|x|Fall 2015\<newline>'') \<and>
   all_names_by_house ''A|B|Gryffindor|x|Fall 2015\<newline>C|D|Gryffindor|y|Fall 2015\<newline>'' =
     all_names_by_house ''C|D|Gryffindor|y|Fall 2015\<newline>A|B|Gryffindor|x|Fall 2015\<newline>''"
proof -
  have m: "mset (py_lines ''A|B|Gryffindor|x|Fall 2015\<newline>C|D|Gryffindor|y|Fall 2015\<newline>'') =
      mset (py_lines ''C|D|Gryffindor|y|Fall 2015\<newline>A|B|Gryffindor|x|Fall 2015\<newline>'')"
    by (simp add: py_lines_def nl_def add_mset_commute)
  show ?thesis using all_names_by_house_line_order[OF m] m by simp
qed

end
