(* ===== verification/Cohorts.thy ===== *)
theory Cohorts
  imports Roster
begin

text \<open>
  The two cohort queries of \<^verbatim>\<open>src/cohort_data.py\<close>: \<^verbatim>\<open>students_by_cohort\<close>
  (lines 33--77), the sorted full names of the records whose cohort field is longer than
  one character and equals the requested cohort, or of all such records for
  \<^verbatim>\<open>'All'\<close>; and \<^verbatim>\<open>get_cohort_for\<close> (lines 184--212), the cohort of the first
  record with the given full name, returning from inside the loop. The Python default
  \<^verbatim>\<open>cohort='All'\<close> is the argument \<^verbatim>\<open>''All''\<close>; the loop variable
  \<^verbatim>\<open>group\<close> is \<open>grp\<close> here, \<open>group\<close> being a constant of HOL.
\<close>

subsection \<open>\<^verbatim>\<open>students_by_cohort\<close>\<close>

definition students_step :: "string \<Rightarrow> string list \<Rightarrow> string \<Rightarrow> string list py_result" where
  "students_step cohort students line =
     (let data = split_line line in
      case py_full_name data of
        Inl e \<Rightarrow> Inl e
      | Inr full_name \<Rightarrow>
          (case py_index data 4 of
             Inl e \<Rightarrow> Inl e
           | Inr grp \<Rightarrow>
               Inr (if 1 < length grp
                    then (let students' = (if cohort = grp then students @ [full_name] else students)
                          in if cohort = ''All'' then students' @ [full_name] else students')
                    else students)))"

definition students_by_cohort :: "string \<Rightarrow> string \<Rightarrow> string list py_result" where
  "students_by_cohort text cohort =
     (case py_for (students_step cohort) [] (py_lines text) of
        Inl e \<Rightarrow> Inl e
      | Inr students \<Rightarrow> Inr (sort students))"

subsection \<open>\<^verbatim>\<open>get_cohort_for\<close>\<close>

text \<open>The loop returns as soon as a name matches; falling off its end returns \<^verbatim>\<open>None\<close>.\<close>

fun get_cohort_loop :: "string \<Rightarrow> string list \<Rightarrow> string option py_result" where
  "get_cohort_loop name [] = Inr None"
| "get_cohort_loop name (line # lines) =
     (let data = split_line line in
      case py_full_name data of
        Inl e \<Rightarrow> Inl e
      | Inr full_name \<Rightarrow>
          (case py_index data 4 of
             Inl e \<Rightarrow> Inl e
           | Inr cohort \<Rightarrow>
               (if full_name = name then Inr (Some cohort) else get_cohort_loop name lines)))"

definition get_cohort_for :: "string \<Rightarrow> string \<Rightarrow> string option py_result" where
  "get_cohort_for text name = get_cohort_loop name (py_lines text)"

subsection \<open>Abstract specification\<close>

text \<open>
  The names a cohort query selects, once each: records whose cohort field is longer
  than one character and is the requested one, or any such record for \<^verbatim>\<open>'All'\<close>.
\<close>

definition cohort_names :: "string \<Rightarrow> row list \<Rightarrow> string list" where
  "cohort_names c rows =
     names_where (\<lambda>r. 1 < length (row_cohort r) \<and> (row_cohort r = c \<or> c = ''All'')) rows"

subsection \<open>\<^verbatim>\<open>students_by_cohort\<close> against \<^verbatim>\<open>all_data\<close>\<close>

lemma students_step_ok:
  assumes "5 \<le> length (split_line line)"
  shows "students_step c acc line =
    Inr (acc @ (let r = fields_row (split_line line) in
      if 1 < length (row_cohort r)
      then (if c = row_cohort r then [row_name r] else []) @ (if c = ''All'' then [row_name r] else [])
      else []))"
  using assms by (simp add: students_step_def py_full_name_eq fields_row_def Let_def)

text \<open>
  Each record with a cohort field longer than one character is counted once, and a
  second time when the query is \<^verbatim>\<open>'All'\<close> and its own cohort field is
  \<^verbatim>\<open>'All'\<close>: both \<^verbatim>\<open>if\<close>s of lines 72--75 fire.
\<close>

lemma mset_students_contrib:
  "mset (concat (map (\<lambda>r. if 1 < length (row_cohort r)
      then (if c = row_cohort r then [row_name r] else []) @ (if c = ''All'' then [row_name r] else [])
      else []) rows)) =
   mset (cohort_names c rows) +
   (if c = ''All'' then mset (names_where (\<lambda>r. row_cohort r = ''All'') rows) else {#})"
  by (induction rows) (auto simp: cohort_names_def names_where_def)

lemma students_by_cohort_all_data:
  assumes "all_data text = Inr rows"
  shows "students_by_cohort text c =
    Inr (sort (cohort_names c rows @
      (if c = ''All'' then names_where (\<lambda>r. row_cohort r = ''All'') rows else [])))"
proof -
  note ok = all_data_Inr_D[OF assms]
  let ?H = "\<lambda>r. if 1 < length (row_cohort r)
      then (if c = row_cohort r then [row_name r] else []) @ (if c = ''All'' then [row_name r] else [])
      else []"
  have "py_for (students_step c) [] (py_lines text) =
      Inr (fold (\<lambda>line acc. acc @ ?H (fields_row (split_line line))) (py_lines text) [])"
    by (rule py_for_fold) (use ok(1) in \<open>simp add: students_step_ok Let_def\<close>)
  also have "\<dots> = Inr (concat (map ?H rows))"
    by (simp add: fold_append_concat ok(2) comp_def)
  finally have "students_by_cohort text c = Inr (sort (concat (map ?H rows)))"
    by (simp add: students_by_cohort_def)
  also have "sort (concat (map ?H rows)) = sort (cohort_names c rows @
      (if c = ''All'' then names_where (\<lambda>r. row_cohort r = ''All'') rows else []))"
    by (rule sort_cong_mset) (use mset_students_contrib[of c rows] in simp)
  finally show ?thesis .
qed

lemma students_by_cohort_Inr_D:
  "students_by_cohort text c = Inr xs \<Longrightarrow>
   \<exists>acc. py_for (students_step c) [] (py_lines text) = Inr acc \<and> xs = sort acc"
  by (auto simp: students_by_cohort_def split: sum.splits)

lemma students_step_short:
  "length c \<le> 1 \<Longrightarrow> c \<noteq> ''All'' \<Longrightarrow> students_step c acc line = Inr acc' \<Longrightarrow> acc' = acc"
  by (auto simp: students_step_def Let_def split: sum.splits if_splits)

subsection \<open>\<^verbatim>\<open>get_cohort_for\<close>: first match\<close>

lemma get_cohort_loop_ok:
  "\<forall>line \<in> set lines. 5 \<le> length (split_line line) \<Longrightarrow>
   get_cohort_loop n lines =
     Inr (map_option (\<lambda>r. row_cohort r) (find (\<lambda>r. row_name r = n) (map (\<lambda>l. fields_row (split_line l)) lines)))"
  by (induction lines) (auto simp: py_full_name_eq fields_row_def Let_def)

lemma get_cohort_for_all_data:
  "all_data text = Inr rows \<Longrightarrow>
   get_cohort_for text n = Inr (map_option (\<lambda>r. row_cohort r) (find (\<lambda>r. row_name r = n) rows))"
  using all_data_Inr_D[of "text" rows] by (simp add: get_cohort_for_def get_cohort_loop_ok)

text \<open>Once a line matches, the lines after it are never read.\<close>

lemma get_cohort_loop_append:
  "\<forall>line \<in> set xs. 5 \<le> length (split_line line) \<Longrightarrow>
   find (\<lambda>r. row_name r = n) (map (\<lambda>l. fields_row (split_line l)) xs) = Some r \<Longrightarrow>
   get_cohort_loop n (xs @ ys) = Inr (Some (row_cohort r))"
  by (induction xs) (auto simp: py_full_name_eq fields_row_def Let_def split: if_splits)

lemma students_by_cohort_isl_iff:
  "isl (students_by_cohort text c) \<longleftrightarrow> isl (all_data text)"
proof -
  have "isl (py_for (students_step c) [] (py_lines text)) \<longleftrightarrow>
      (\<exists>line \<in> set (py_lines text). length (split_line line) < 5)"
    by (rule py_for_Inl_iff)
      (auto simp: students_step_def py_full_name_eq py_index_def Let_def)
  then show ?thesis
    by (simp add: all_data_isl_iff students_by_cohort_def split: sum.split)
qed

lemma students_by_cohort_Inr_all_data:
  assumes "students_by_cohort text c = Inr xs"
  obtains rows where "all_data text = Inr rows"
proof (cases "all_data text")
  case (Inl e)
  with assms students_by_cohort_isl_iff[of "text" c] show ?thesis by simp
qed

lemma cohort_names_roster:
  "cohort_names c (map row_of ps) =
   map p_full_name (filter (\<lambda>p. 1 < length (p_cohort p) \<and> (p_cohort p = c \<or> c = ''All'')) ps)"
  by (simp add: cohort_names_def names_where_def filter_map comp_def row_of_def)

text \<open>The loop raises exactly when a short line comes before any line with the name.\<close>

lemma get_cohort_loop_isl_iff:
  "isl (get_cohort_loop n lines) \<longleftrightarrow>
   (\<exists>pre l post. lines = pre @ l # post \<and> length (split_line l) < 5 \<and>
      (\<forall>x \<in> set pre. 5 \<le> length (split_line x) \<and> row_name (fields_row (split_line x)) \<noteq> n))"
proof (induction lines)
  case Nil
  then show ?case by simp
next
  case (Cons x xs)
  show ?case
  proof (cases "length (split_line x) < 5")
    case True
    then have "isl (get_cohort_loop n (x # xs))"
      by (simp add: py_full_name_eq py_index_def Let_def)
    moreover have "\<exists>pre l post. x # xs = pre @ l # post \<and> length (split_line l) < 5 \<and>
      (\<forall>y \<in> set pre. 5 \<le> length (split_line y) \<and> row_name (fields_row (split_line y)) \<noteq> n)"
      by (rule exI[of _ "[]"], rule exI[of _ x], rule exI[of _ xs]) (simp add: True)
    ultimately show ?thesis by blast
  next
    case False
    then have step: "get_cohort_loop n (x # xs) =
        (if row_name (fields_row (split_line x)) = n
         then Inr (Some (row_cohort (fields_row (split_line x)))) else get_cohort_loop n xs)"
      by (simp add: py_full_name_eq fields_row_def Let_def)
    have split: "(\<exists>pre l post. x # xs = pre @ l # post \<and> length (split_line l) < 5 \<and>
          (\<forall>y \<in> set pre. 5 \<le> length (split_line y) \<and> row_name (fields_row (split_line y)) \<noteq> n)) \<longleftrightarrow>
        row_name (fields_row (split_line x)) \<noteq> n \<and>
        (\<exists>pre l post. xs = pre @ l # post \<and> length (split_line l) < 5 \<and>
          (\<forall>y \<in> set pre. 5 \<le> length (split_line y) \<and> row_name (fields_row (split_line y)) \<noteq> n))"
      (is "?L \<longleftrightarrow> ?R")
    proof
      assume ?L
      then obtain pre l post where d: "x # xs = pre @ l # post" "length (split_line l) < 5"
        "\<forall>y \<in> set pre. 5 \<le> length (split_line y) \<and> row_name (fields_row (split_line y)) \<noteq> n"
        by blast
      with False obtain pre' where "pre = x # pre'" by (cases pre) auto
      with d show ?R by auto
    next
      assume ?R
      then obtain pre l post where "xs = pre @ l # post" "length (split_line l) < 5"
        "\<forall>y \<in> set pre. 5 \<le> length (split_line y) \<and> row_name (fields_row (split_line y)) \<noteq> n"
        "row_name (fields_row (split_line x)) \<noteq> n"
        by blast
      with False show ?L by (intro exI[of _ "x # pre"] exI[of _ l] exI[of _ post]) auto
    qed
    show ?thesis
    proof (cases "row_name (fields_row (split_line x)) = n")
      case True
      then show ?thesis unfolding split step by simp
    next
      case False
      then show ?thesis unfolding split step using Cons.IH by simp
    qed
  qed
qed

lemma get_cohort_for_encode:
  "wf_roster ps \<Longrightarrow>
   get_cohort_for (encode_file ps) n = Inr (map_option p_cohort (find (\<lambda>p. p_full_name p = n) ps))"
  using get_cohort_for_all_data[OF all_data_encode, of ps n]
  by (simp add: find_map_option comp_def row_of_def option.map_comp)

subsection \<open>Properties\<close>

text \<open>
  C1: on a well-formed roster file, \<^verbatim>\<open>students_by_cohort\<close> returns, sorted, the full
  names of the persons whose cohort field is longer than one character and equals the
  requested cohort, or of all such persons for \<^verbatim>\<open>'All'\<close>, provided the query is
  not \<^verbatim>\<open>'All'\<close> or no person's cohort is literally \<^verbatim>\<open>'All'\<close>.
\<close>

theorem students_by_cohort_roster:
  assumes "wf_roster ps" and "c \<noteq> ''All'' \<or> (\<forall>p \<in> set ps. p_cohort p \<noteq> ''All'')"
  shows "students_by_cohort (encode_file ps) c =
    Inr (sort (map p_full_name
      (filter (\<lambda>p. 1 < length (p_cohort p) \<and> (p_cohort p = c \<or> c = ''All'')) ps)))"
proof -
  have "c = ''All'' \<Longrightarrow> names_where (\<lambda>r. row_cohort r = ''All'') (map row_of ps) = []"
    using assms(2) by (auto simp: names_where_def filter_empty_conv row_of_def)
  then show ?thesis
    using students_by_cohort_all_data[OF all_data_encode[OF assms(1)], of c]
    by (cases "c = ''All''") (simp_all add: cohort_names_roster)
qed

theorem students_by_cohort_roster_witness:
  "wf_roster [ron, binns, harry] \<and> ''Fall 2015'' \<noteq> ''All'' \<and>
   students_by_cohort (encode_file [ron, binns, harry]) ''Fall 2015'' = Inr [''Harry Potter'', ''Ron Weasley'']"
proof -
  have wf: "wf_roster [ron, binns, harry]" by simp
  have c: "''Fall 2015'' \<noteq> ''All'' \<or> (\<forall>p \<in> set [ron, binns, harry]. p_cohort p \<noteq> ''All'')" by simp
  show ?thesis
    by (rule conjI[OF wf])
      (use students_by_cohort_roster[OF wf c] in \<open>simp add: example_defs p_full_name_def\<close>)
qed

text \<open>
  C8: for the query \<^verbatim>\<open>'All'\<close>, every person whose cohort field is literally
  \<^verbatim>\<open>'All'\<close> is listed twice: once as a member of every cohort and once more
  because the field equals the query.
\<close>

theorem students_by_cohort_All_twice:
  assumes "wf_roster ps"
  shows "students_by_cohort (encode_file ps) ''All'' =
    Inr (sort (map p_full_name (filter (\<lambda>p. 1 < length (p_cohort p)) ps) @
               map p_full_name (filter (\<lambda>p. p_cohort p = ''All'') ps)))"
  using students_by_cohort_all_data[OF all_data_encode[OF assms], of "''All''"]
  by (simp add: cohort_names_roster names_where_def filter_map comp_def row_of_def)

theorem students_by_cohort_All_twice_witness:
  "wf_roster [\<lparr>p_first = ''Lee'', p_last = ''Jordan'', p_house = [], p_advisor = [], p_cohort = ''All''\<rparr>] \<and>
   students_by_cohort
     (encode_file [\<lparr>p_first = ''Lee'', p_last = ''Jordan'', p_house = [], p_advisor = [], p_cohort = ''All''\<rparr>])
     ''All'' = Inr [''Lee Jordan'', ''Lee Jordan'']"
proof -
  have wf: "wf_roster [\<lparr>p_first = ''Lee'', p_last = ''Jordan'', p_house = [], p_advisor = [], p_cohort = ''All''\<rparr>]"
    by (simp add: wf_person_def fields_of_def wf_field_def nl_def rstrip_def py_isspace_def)
  show ?thesis
    by (rule conjI[OF wf]) (use students_by_cohort_All_twice[OF wf] in \<open>simp add: p_full_name_def\<close>)
qed

text \<open>
  C14: whatever the file, a list that \<^verbatim>\<open>students_by_cohort\<close> returns is sorted and
  holds at most two names per line of the file.
\<close>

theorem students_by_cohort_sorted_bounded:
  assumes "students_by_cohort text c = Inr xs"
  shows "sorted xs \<and> length xs \<le> 2 * length (py_lines text)"
proof -
  obtain rows where rows: "all_data text = Inr rows"
    using assms by (rule students_by_cohort_Inr_all_data)
  have "length (cohort_names c rows) \<le> length rows"
    and "length (names_where (\<lambda>r. row_cohort r = ''All'') rows) \<le> length rows"
    by (simp_all add: cohort_names_def names_where_def)
  then show ?thesis
    using assms students_by_cohort_all_data[OF rows, of c] all_data_length[OF rows] by auto
qed

theorem students_by_cohort_sorted_bounded_witness:
  "students_by_cohort ''Ron|Weasley|G|M|Fall 2015\<newline>Harry|Potter|G|M|Fall 2015\<newline>'' ''Fall 2015'' =
     Inr [''Harry Potter'', ''Ron Weasley''] \<and>
   sorted [''Harry Potter'', ''Ron Weasley''] \<and>
   length [''Harry Potter'', ''Ron Weasley''] \<le> 2 * length (py_lines ''Ron|Weasley|G|M|Fall 2015\<newline>Harry|Potter|G|M|Fall 2015\<newline>'')"
proof -
  have run: "students_by_cohort ''Ron|Weasley|G|M|Fall 2015\<newline>Harry|Potter|G|M|Fall 2015\<newline>'' ''Fall 2015'' =
     Inr [''Harry Potter'', ''Ron Weasley'']"
    by code_simp
  show ?thesis using students_by_cohort_sorted_bounded[OF run] run by simp
qed

text \<open>
  C23: a cohort of at most one character, for instance the ghost marker \<^verbatim>\<open>'G'\<close>
  or the instructor marker \<^verbatim>\<open>'I'\<close>, selects nobody: whatever the file,
  \<^verbatim>\<open>students_by_cohort\<close> returns the empty list for it.
\<close>

theorem students_by_cohort_short_cohort:
  assumes "length c \<le> 1" and "students_by_cohort text c = Inr xs"
  shows "xs = []"
proof -
  have "c \<noteq> ''All''" using assms(1) by auto
  obtain acc where run: "py_for (students_step c) [] (py_lines text) = Inr acc" and xs: "xs = sort acc"
    using students_by_cohort_Inr_D[OF assms(2)] by blast
  have "acc = []"
    by (rule py_for_invariant[OF run, where P = "\<lambda>acc. acc = []"])
      (use students_step_short[OF assms(1) \<open>c \<noteq> ''All''\<close>] in auto)
  with xs show ?thesis by simp
qed

theorem students_by_cohort_short_cohort_witness:
  "length ''G'' \<le> 1 \<and> students_by_cohort (encode_file [binns]) ''G'' = Inr []"
proof -
  have run: "students_by_cohort (encode_file [binns]) ''G'' = Inr []"
    by code_simp
  show ?thesis using students_by_cohort_short_cohort[of "''G''", OF _ run] run by simp
qed

text \<open>
  C4: on a well-formed roster file, \<^verbatim>\<open>get_cohort_for\<close> returns the cohort of the
  first person, in file order, whose full name is exactly the one asked for, and
  \<^verbatim>\<open>None\<close> when nobody has that name.
\<close>

theorem get_cohort_for_roster:
  "wf_roster ps \<Longrightarrow>
   get_cohort_for (encode_file ps) n = Inr (map_option p_cohort (find (\<lambda>p. p_full_name p = n) ps))"
  using get_cohort_for_all_data[OF all_data_encode, of ps n]
  by (simp add: find_map_option comp_def row_of_def option.map_comp)

theorem get_cohort_for_roster_witness:
  "wf_roster [harry, binns, \<lparr>p_first = ''Harry'', p_last = ''Potter'', p_house = [], p_advisor = [], p_cohort = ''Winter 2016''\<rparr>] \<and>
   get_cohort_for (encode_file [harry, binns,
     \<lparr>p_first = ''Harry'', p_last = ''Potter'', p_house = [], p_advisor = [], p_cohort = ''Winter 2016''\<rparr>])
     ''Harry Potter'' = Inr (Some ''Fall 2015'') \<and>
   get_cohort_for (encode_file [harry, binns,
     \<lparr>p_first = ''Harry'', p_last = ''Potter'', p_house = [], p_advisor = [], p_cohort = ''Winter 2016''\<rparr>])
     ''Balloonicorn'' = Inr None"
proof -
  have "wf_person \<lparr>p_first = ''Harry'', p_last = ''Potter'', p_house = [], p_advisor = [],
      p_cohort = ''Winter 2016''\<rparr>"
    by (simp add: wf_person_def fields_of_def wf_field_def nl_def rstrip_def py_isspace_def)
  then have wf: "wf_roster [harry, binns,
     \<lparr>p_first = ''Harry'', p_last = ''Potter'', p_house = [], p_advisor = [], p_cohort = ''Winter 2016''\<rparr>]"
    by simp
  show ?thesis
    by (rule conjI[OF wf])
      (use get_cohort_for_roster[OF wf, of "''Harry Potter''"]
           get_cohort_for_roster[OF wf, of "''Balloonicorn''"] in \<open>simp add: example_defs p_full_name_def\<close>)
qed

text \<open>
  C15: \<^verbatim>\<open>get_cohort_for\<close> returns from inside its loop: once a well-formed line
  carries the name, and no earlier line does, its cohort is the answer whatever follows
  in the file, even lines that would make \<^verbatim>\<open>data[4]\<close> raise.
\<close>

theorem get_cohort_for_early_return:
  assumes "wf_roster ps" and "wf_person p" and "p_full_name p = n"
    and "n \<notin> p_full_name ` set ps"
  shows "get_cohort_for (encode_file (ps @ [p]) @ rest) n = Inr (Some (p_cohort p))"
proof -
  have wf: "wf_roster (ps @ [p])" using assms(1,2) by (simp add: wf_roster_def)
  have last_nl: "last (encode_file (ps @ [p])) = nl"
    by (simp add: encode_file_def encode_line_def)
  have lines: "py_lines (encode_file (ps @ [p]) @ rest) = map encode_line (ps @ [p]) @ py_lines rest"
    using py_lines_append[of "encode_file (ps @ [p])" rest] last_nl py_lines_encode_file[OF wf]
    by simp
  have ok: "\<forall>line \<in> set (map encode_line (ps @ [p])). 5 \<le> length (split_line line)"
    using wf by (auto simp: wf_roster_def list_all_iff split_line_encode_line fields_of_def)
  have rows: "map (\<lambda>l. fields_row (split_line l)) (map encode_line (ps @ [p])) = map row_of (ps @ [p])"
    using wf by (auto simp: wf_roster_def list_all_iff split_line_encode_line)
  have "find (\<lambda>r. row_name r = n) (map row_of ps) = None"
    using assms(4) by (auto simp: find_None_iff row_of_def)
  then have "find (\<lambda>r. row_name r = n) (map row_of (ps @ [p])) = Some (row_of p)"
    using assms(3) by (simp add: find_append_list row_of_def)
  then have "find (\<lambda>r. row_name r = n)
      (map (\<lambda>l. fields_row (split_line l)) (map encode_line (ps @ [p]))) = Some (row_of p)"
    by (simp only: rows)
  then have "get_cohort_loop n (map encode_line (ps @ [p]) @ py_lines rest) =
      Inr (Some (row_cohort (row_of p)))"
    by (rule get_cohort_loop_append[OF ok])
  then show ?thesis
    unfolding get_cohort_for_def lines by (simp add: row_of_def)
qed

theorem get_cohort_for_early_return_witness:
  "wf_roster [ron] \<and> wf_person harry \<and> p_full_name harry = ''Harry Potter'' \<and>
   ''Harry Potter'' \<notin> p_full_name ` set [ron] \<and>
   get_cohort_for (encode_file ([ron] @ [harry]) @ ''no fields here\<newline>'') ''Harry Potter'' =
     Inr (Some ''Fall 2015'') \<and>
   isl (all_data (encode_file ([ron] @ [harry]) @ ''no fields here\<newline>''))"
proof -
  have h1: "wf_roster [ron]" "wf_person harry" by simp_all
  have h2: "p_full_name harry = ''Harry Potter''" "''Harry Potter'' \<notin> p_full_name ` set [ron]"
    by (simp_all add: example_defs p_full_name_def)
  note h = h1 h2
  have e: "isl (all_data (encode_file ([ron] @ [harry]) @ ''no fields here\<newline>''))"
    by code_simp
  show ?thesis
    using h e get_cohort_for_early_return[OF h, of "''no fields here\<newline>''"] by (simp add: harry_def)
qed

text \<open>
  C25: when no person's cohort field is literally \<^verbatim>\<open>'All'\<close>, the \<^verbatim>\<open>'All'\<close>
  roster of a well-formed roster file is the sorted union of the rosters that
  \<^verbatim>\<open>students_by_cohort\<close> returns for each distinct cohort value of the file.
\<close>

theorem students_by_cohort_All_union:
  assumes "wf_roster ps" and "\<forall>p \<in> set ps. p_cohort p \<noteq> ''All''"
  shows "students_by_cohort (encode_file ps) ''All'' =
    Inr (sort (concat (map (\<lambda>c. projr (students_by_cohort (encode_file ps) c))
                            (remdups (map p_cohort ps)))))"
proof -
  let ?L = "filter (\<lambda>p. 1 < length (p_cohort p)) ps"
  let ?D = "remdups (map p_cohort ps)"
  note run = students_by_cohort_all_data[OF all_data_encode[OF assms(1)]]
  have each: "map (\<lambda>c. projr (students_by_cohort (encode_file ps) c)) ?D =
      map (\<lambda>c. sort (map p_full_name (filter (\<lambda>p. p_cohort p = c) ?L))) ?D"
  proof (rule map_cong[OF refl])
    fix c assume "c \<in> set ?D"
    with assms(2) have "c \<noteq> ''All''" by auto
    then show "projr (students_by_cohort (encode_file ps) c) =
        sort (map p_full_name (filter (\<lambda>p. p_cohort p = c) ?L))"
      using run[of c] by (simp add: cohort_names_roster filter_filter conj_commute)
  qed
  have "names_where (\<lambda>r. row_cohort r = ''All'') (map row_of ps) = []"
    using assms(2) by (auto simp: names_where_def filter_empty_conv row_of_def)
  then have all: "students_by_cohort (encode_file ps) ''All'' = Inr (sort (map p_full_name ?L))"
    using run[of "''All''"] by (simp add: cohort_names_roster)
  have "set (map p_cohort ?L) \<subseteq> set ?D" by auto
  then have "mset (concat (map (\<lambda>c. filter (\<lambda>p. p_cohort p = c) ?L) ?D)) = mset ?L"
    by (intro mset_concat_group) simp_all
  then have "mset (map p_full_name (concat (map (\<lambda>c. filter (\<lambda>p. p_cohort p = c) ?L) ?D))) =
      mset (map p_full_name ?L)"
    by (simp only: mset_map)
  moreover have "map p_full_name (concat (map (\<lambda>c. filter (\<lambda>p. p_cohort p = c) ?L) ?D)) =
      concat (map (\<lambda>c. map p_full_name (filter (\<lambda>p. p_cohort p = c) ?L)) ?D)"
    by (simp add: map_concat comp_def)
  ultimately have "mset (concat (map (\<lambda>c. sort (map p_full_name (filter (\<lambda>p. p_cohort p = c) ?L))) ?D)) =
      mset (map p_full_name ?L)"
    by (simp only: mset_concat_sort)
  then have "sort (concat (map (\<lambda>c. sort (map p_full_name (filter (\<lambda>p. p_cohort p = c) ?L))) ?D)) =
      sort (map p_full_name ?L)"
    by (rule sort_cong_mset)
  then show ?thesis by (simp only: all each)
qed

theorem students_by_cohort_All_union_witness:
  "wf_roster [ron, binns, \<lparr>p_first = ''Hannah'', p_last = ''Abbott'', p_house = ''Hufflepuff'',
      p_advisor = [], p_cohort = ''Winter 2016''\<rparr>, harry] \<and>
   students_by_cohort (encode_file [ron, binns, \<lparr>p_first = ''Hannah'', p_last = ''Abbott'',
      p_house = ''Hufflepuff'', p_advisor = [], p_cohort = ''Winter 2016''\<rparr>, harry]) ''All'' =
     Inr [''Hannah Abbott'', ''Harry Potter'', ''Ron Weasley'']"
proof -
  have "wf_person \<lparr>p_first = ''Hannah'', p_last = ''Abbott'', p_house = ''Hufflepuff'',
      p_advisor = [], p_cohort = ''Winter 2016''\<rparr>"
    by (simp add: wf_person_def fields_of_def wf_field_def nl_def rstrip_def py_isspace_def)
  then have wf: "wf_roster [ron, binns, \<lparr>p_first = ''Hannah'', p_last = ''Abbott'',
      p_house = ''Hufflepuff'', p_advisor = [], p_cohort = ''Winter 2016''\<rparr>, harry]"
    by simp
  have h: "\<forall>p \<in> set [ron, binns, \<lparr>p_first = ''Hannah'', p_last = ''Abbott'',
      p_house = ''Hufflepuff'', p_advisor = [], p_cohort = ''Winter 2016''\<rparr>, harry]. p_cohort p \<noteq> ''All''"
    by (simp add: example_defs)
  have per: "students_by_cohort (encode_file [ron, binns, \<lparr>p_first = ''Hannah'', p_last = ''Abbott'',
      p_house = ''Hufflepuff'', p_advisor = [], p_cohort = ''Winter 2016''\<rparr>, harry]) ''All'' =
    Inr (sort (concat (map (\<lambda>c. projr (students_by_cohort (encode_file [ron, binns,
      \<lparr>p_first = ''Hannah'', p_last = ''Abbott'', p_house = ''Hufflepuff'', p_advisor = [],
       p_cohort = ''Winter 2016''\<rparr>, harry]) c))
      (remdups (map p_cohort [ron, binns, \<lparr>p_first = ''Hannah'', p_last = ''Abbott'',
        p_house = ''Hufflepuff'', p_advisor = [], p_cohort = ''Winter 2016''\<rparr>, harry])))))"
    by (rule students_by_cohort_All_union[OF wf h])
  have "sort (concat (map (\<lambda>c. projr (students_by_cohort (encode_file [ron, binns,
      \<lparr>p_first = ''Hannah'', p_last = ''Abbott'', p_house = ''Hufflepuff'', p_advisor = [],
       p_cohort = ''Winter 2016''\<rparr>, harry]) c))
      (remdups (map p_cohort [ron, binns, \<lparr>p_first = ''Hannah'', p_last = ''Abbott'',
        p_house = ''Hufflepuff'', p_advisor = [], p_cohort = ''Winter 2016''\<rparr>, harry])))) =
    [''Hannah Abbott'', ''Harry Potter'', ''Ron Weasley'']"
    by code_simp
  with wf per show ?thesis by simp
qed

text \<open>
  C26: \<^verbatim>\<open>get_cohort_for\<close> raises \<^verbatim>\<open>IndexError\<close> exactly when the file has a line
  with fewer than five fields before every line that carries the name: the lines it has
  read up to then all parsed and none carried the name.
\<close>

theorem get_cohort_for_error:
  "isl (get_cohort_for text n) \<longleftrightarrow>
   (\<exists>pre l post. py_lines text = pre @ l # post \<and> length (split_line l) < 5 \<and>
      (\<forall>x \<in> set pre. 5 \<le> length (split_line x) \<and> row_name (fields_row (split_line x)) \<noteq> n))"
  by (simp add: get_cohort_for_def get_cohort_loop_isl_iff)

theorem get_cohort_for_error_witness:
  "isl (get_cohort_for ''Ron|Weasley|G|M|Fall 2015\<newline>oops\<newline>Harry|Potter|G|M|Fall 2015\<newline>'' ''Harry Potter'')"
proof -
  have "py_lines ''Ron|Weasley|G|M|Fall 2015\<newline>oops\<newline>Harry|Potter|G|M|Fall 2015\<newline>'' =
      [''Ron|Weasley|G|M|Fall 2015\<newline>''] @ ''oops\<newline>'' # [''Harry|Potter|G|M|Fall 2015\<newline>''] \<and>
    length (split_line ''oops\<newline>'') < 5 \<and>
    (\<forall>x \<in> set [''Ron|Weasley|G|M|Fall 2015\<newline>'']. 5 \<le> length (split_line x) \<and>
       row_name (fields_row (split_line x)) \<noteq> ''Harry Potter'')"
    by code_simp
  then show ?thesis by (intro get_cohort_for_error[THEN iffD2]) blast
qed

text \<open>
  C29: on any text, \<^verbatim>\<open>students_by_cohort\<close>, which splits the lines itself, computes
  what a filter over the rows of \<^verbatim>\<open>all_data\<close> computes: it raises exactly when
  \<^verbatim>\<open>all_data\<close> raises, and otherwise returns the sorted names of the rows whose cohort
  is longer than one character and matches, with the literal \<^verbatim>\<open>'All'\<close> rows once more
  for the query \<^verbatim>\<open>'All'\<close>.
\<close>

theorem students_by_cohort_via_all_data:
  "students_by_cohort text c =
   map_sum id (\<lambda>rows. sort (cohort_names c rows @
       (if c = ''All'' then names_where (\<lambda>r. row_cohort r = ''All'') rows else [])))
     (all_data text)"
  by (rule py_result_refine[OF students_by_cohort_isl_iff students_by_cohort_all_data])

text \<open>
  C33: \<^verbatim>\<open>students_by_cohort\<close> does not depend on the order of the lines: two files
  whose lines are the same up to a permutation give the same result, the same error
  included, because the names are sorted before they are returned.
\<close>

theorem students_by_cohort_line_order:
  assumes "mset (py_lines t1) = mset (py_lines t2)"
  shows "students_by_cohort t1 c = students_by_cohort t2 c"
proof (rule py_result_eqI)
  show "isl (students_by_cohort t1 c) \<longleftrightarrow> isl (students_by_cohort t2 c)"
    using all_data_line_order(1)[OF assms] by (simp add: students_by_cohort_isl_iff)
next
  fix xs1 xs2
  assume r1: "students_by_cohort t1 c = Inr xs1" and r2: "students_by_cohort t2 c = Inr xs2"
  obtain rows1 where d1: "all_data t1 = Inr rows1" using r1 by (rule students_by_cohort_Inr_all_data)
  obtain rows2 where d2: "all_data t2 = Inr rows2" using r2 by (rule students_by_cohort_Inr_all_data)
  have m: "mset rows1 = mset rows2" using all_data_line_order(2)[OF assms d1 d2] .
  have "xs1 = sort (cohort_names c rows1 @
      (if c = ''All'' then names_where (\<lambda>r. row_cohort r = ''All'') rows1 else []))"
    using r1 students_by_cohort_all_data[OF d1, of c] by simp
  also have "\<dots> = sort (cohort_names c rows2 @
      (if c = ''All'' then names_where (\<lambda>r. row_cohort r = ''All'') rows2 else []))"
    by (rule sort_cong_mset) (simp add: cohort_names_def mset_names_where_perm[OF m])
  also have "\<dots> = xs2"
    using r2 students_by_cohort_all_data[OF d2, of c] by simp
  finally show "xs1 = xs2" .
qed

theorem students_by_cohort_line_order_witness:
  "mset (py_lines ''A|B|H|x|Fall 2015\<newline>C|D|H|y|Fall 2015\<newline>'') =
     mset (py_lines ''C|D|H|y|Fall 2015\<newline>A|B|H|x|Fall 2015\<newline>'') \<and>
   students_by_cohort ''A|B|H|x|Fall 2015\<newline>C|D|H|y|Fall 2015\<newline>'' ''Fall 2015'' =
     students_by_cohort ''C|D|H|y|Fall 2015\<newline>A|B|H|x|Fall 2015\<newline>'' ''Fall 2015''"
proof -
  have m: "mset (py_lines ''A|B|H|x|Fall 2015\<newline>C|D|H|y|Fall 2015\<newline>'') =
      mset (py_lines ''C|D|H|y|Fall 2015\<newline>A|B|H|x|Fall 2015\<newline>'')"
    by (simp add: py_lines_def nl_def add_mset_commute)
  show ?thesis using students_by_cohort_line_order[OF m] m by simp
qed

end
