(* ===== verification/Dupes.thy ===== *)
theory Dupes
  imports Roster
begin

text \<open>
  \<^verbatim>\<open>find_duped_last_names\<close> (\<^verbatim>\<open>src/cohort_data.py\<close>, lines 214--241): a loop
  over the lines with two pieces of state, the list \<^verbatim>\<open>last_names\<close> of surnames seen
  once and the set \<^verbatim>\<open>dupes\<close> of surnames seen again. The loop keeps the list free of
  repetitions and the set inside it; the result is the set of surnames that occur at
  least twice. Only the second field is read, so a line needs two fields.
\<close>

type_synonym dupes_state = "string list \<times> string set"

definition dupes_step :: "dupes_state \<Rightarrow> string \<Rightarrow> dupes_state py_result" where
  "dupes_step st line =
     (case st of (last_names, dupes) \<Rightarrow>
       (case py_index (split_line line) 1 of
          Inl e \<Rightarrow> Inl e
        | Inr lname \<Rightarrow>
            Inr (if lname \<in> set last_names then (last_names, insert lname dupes)
                 else (last_names @ [lname], dupes))))"

definition find_duped_last_names :: "string \<Rightarrow> string set py_result" where
  "find_duped_last_names text =
     (case py_for dupes_step ([], {}) (py_lines text) of
        Inl e \<Rightarrow> Inl e
      | Inr (last_names, dupes) \<Rightarrow> Inr dupes)"

subsection \<open>Abstract specification\<close>

text \<open>The values that occur at least twice in a list.\<close>

definition repeated :: "string list \<Rightarrow> string set" where
  "repeated xs = {x \<in> set xs. 2 \<le> count_list xs x}"

definition dupes_inv :: "string list \<Rightarrow> dupes_state \<Rightarrow> bool" where
  "dupes_inv seen st \<longleftrightarrow>
     distinct (fst st) \<and> set (fst st) = set seen \<and> snd st = repeated seen"

subsection \<open>The loop\<close>

lemma repeated_Nil [simp]: "repeated [] = {}"
  by (simp add: repeated_def)

lemma repeated_snoc:
  "repeated (xs @ [x]) = (if x \<in> set xs then insert x (repeated xs) else repeated xs)"
  by (auto simp: repeated_def dest: count_list_pos)

lemma dupes_step_ok:
  "2 \<le> length (split_line line) \<Longrightarrow>
   dupes_step (last_names, dupes) line =
     Inr (if split_line line ! 1 \<in> set last_names
          then (last_names, insert (split_line line ! 1) dupes)
          else (last_names @ [split_line line ! 1], dupes))"
  by (simp add: dupes_step_def)

lemma dupes_step_isl: "isl (dupes_step st line) \<longleftrightarrow> length (split_line line) < 2"
  by (cases st) (simp add: dupes_step_def py_index_def)

text \<open>One step keeps the invariant, the line's surname appended to what has been seen.\<close>

lemma dupes_step_inv:
  assumes "dupes_inv seen st" and "dupes_step st line = Inr st'"
  shows "dupes_inv (seen @ [split_line line ! 1]) st'"
proof (cases st)
  case (Pair last_names dupes)
  have "\<not> isl (dupes_step st line)" using assms(2) by simp
  then have ok: "2 \<le> length (split_line line)" by (simp add: dupes_step_isl)
  let ?l = "split_line line ! 1"
  have st': "st' = (if ?l \<in> set last_names then (last_names, insert ?l dupes)
      else (last_names @ [?l], dupes))"
    using assms(2) dupes_step_ok[OF ok, of last_names dupes] Pair by simp
  from assms(1) Pair have inv: "distinct last_names" "set last_names = set seen"
    "dupes = repeated seen"
    by (simp_all add: dupes_inv_def)
  show ?thesis
  proof (cases "?l \<in> set last_names")
    case True
    with st' inv show ?thesis by (simp add: dupes_inv_def repeated_snoc insert_absorb)
  next
    case False
    with st' inv show ?thesis by (simp add: dupes_inv_def repeated_snoc)
  qed
qed

lemma py_for_dupes_inv:
  "py_for dupes_step st lines = Inr st' \<Longrightarrow> dupes_inv seen st \<Longrightarrow>
   dupes_inv (seen @ map (\<lambda>l. split_line l ! 1) lines) st'"
proof (induction lines arbitrary: seen st)
  case (Cons line lines)
  then obtain st1 where st1: "dupes_step st line = Inr st1"
    and rest: "py_for dupes_step st1 lines = Inr st'"
    by (cases "dupes_step st line") auto
  have "dupes_inv (seen @ [split_line line ! 1]) st1"
    by (rule dupes_step_inv[OF Cons.prems(2) st1])
  from Cons.IH[OF rest this] show ?case by simp
qed simp

lemma dupes_inv_init: "dupes_inv [] ([], {})"
  by (simp add: dupes_inv_def)

lemma find_duped_result:
  "find_duped_last_names text = map_sum id snd (py_for dupes_step ([], {}) (py_lines text))"
  by (simp add: find_duped_last_names_def split: sum.split prod.split)

lemma find_duped_isl_iff:
  "isl (find_duped_last_names text) \<longleftrightarrow> (\<exists>line \<in> set (py_lines text). length (split_line line) < 2)"
proof -
  have "isl (py_for dupes_step ([], {}) (py_lines text)) \<longleftrightarrow>
      (\<exists>line \<in> set (py_lines text). length (split_line line) < 2)"
    by (rule py_for_Inl_iff) (simp add: dupes_step_isl)
  then show ?thesis by (simp add: find_duped_result)
qed

text \<open>When every line has a surname field the loop runs to the end, and its result is the set of repeated surnames.\<close>

lemma find_duped_ok:
  assumes ok: "\<forall>line \<in> set (py_lines text). 2 \<le> length (split_line line)"
  shows "find_duped_last_names text = Inr (repeated (map (\<lambda>l. split_line l ! 1) (py_lines text)))"
proof -
  have "\<not> isl (py_for dupes_step ([], {}) (py_lines text))"
    using find_duped_isl_iff[of "text"] ok by (simp add: find_duped_result not_less)
  then obtain L D where L: "py_for dupes_step ([], {}) (py_lines text) = Inr (L, D)"
    by (cases "py_for dupes_step ([], {}) (py_lines text)") auto
  have "dupes_inv (map (\<lambda>l. split_line l ! 1) (py_lines text)) (L, D)"
    using py_for_dupes_inv[OF L dupes_inv_init] by simp
  then have "D = repeated (map (\<lambda>l. split_line l ! 1) (py_lines text))"
    unfolding dupes_inv_def by (simp only: snd_conv)
  then show ?thesis using L by (simp add: find_duped_result)
qed

lemma find_duped_encode:
  assumes "wf_roster ps"
  shows "find_duped_last_names (encode_file ps) = Inr (repeated (map p_last ps))"
proof -
  have m: "map (\<lambda>p. split_line (encode_line p) ! 1) ps = map p_last ps"
    using assms by (simp add: wf_roster_def list_all_iff split_line_encode_line fields_of_def)
  have "\<forall>p \<in> set ps. 2 \<le> length (split_line (encode_line p))"
    using assms by (simp add: wf_roster_def list_all_iff split_line_encode_line fields_of_def)
  then have "find_duped_last_names (encode_file ps) =
      Inr (repeated (map (\<lambda>p. split_line (encode_line p) ! 1) ps))"
    using assms find_duped_ok[of "encode_file ps"] by (simp add: py_lines_encode_file comp_def)
  then show ?thesis by (simp only: m)
qed

subsection \<open>Properties\<close>

text \<open>
  C5: on a well-formed roster file, \<^verbatim>\<open>find_duped_last_names\<close> returns exactly the set of
  the last names that occur on two or more lines, each once however often it repeats.
\<close>

theorem find_duped_last_names_roster:
  "wf_roster ps \<Longrightarrow>
   find_duped_last_names (encode_file ps) = Inr {l \<in> set (map p_last ps). 2 \<le> count_list (map p_last ps) l}"
  using find_duped_encode by (simp add: repeated_def)

theorem find_duped_last_names_roster_witness:
  "wf_roster [harry, ron, \<lparr>p_first = ''Fred'', p_last = ''Weasley'', p_house = ''Gryffindor'', p_advisor = [], p_cohort = ''Fall 2015''\<rparr>,
              \<lparr>p_first = ''George'', p_last = ''Weasley'', p_house = ''Gryffindor'', p_advisor = [], p_cohort = ''Fall 2015''\<rparr>] \<and>
   find_duped_last_names (encode_file [harry, ron,
     \<lparr>p_first = ''Fred'', p_last = ''Weasley'', p_house = ''Gryffindor'', p_advisor = [], p_cohort = ''Fall 2015''\<rparr>,
     \<lparr>p_first = ''George'', p_last = ''Weasley'', p_house = ''Gryffindor'', p_advisor = [], p_cohort = ''Fall 2015''\<rparr>]) =
     Inr {''Weasley''}"
proof -
  have "wf_person \<lparr>p_first = ''Fred'', p_last = ''Weasley'', p_house = ''Gryffindor'', p_advisor = [], p_cohort = ''Fall 2015''\<rparr>"
    "wf_person \<lparr>p_first = ''George'', p_last = ''Weasley'', p_house = ''Gryffindor'', p_advisor = [], p_cohort = ''Fall 2015''\<rparr>"
    by (simp_all add: wf_person_def fields_of_def wf_field_def nl_def rstrip_def py_isspace_def)
  then have wf: "wf_roster [harry, ron,
     \<lparr>p_first = ''Fred'', p_last = ''Weasley'', p_house = ''Gryffindor'', p_advisor = [], p_cohort = ''Fall 2015''\<rparr>,
     \<lparr>p_first = ''George'', p_last = ''Weasley'', p_house = ''Gryffindor'', p_advisor = [], p_cohort = ''Fall 2015''\<rparr>]"
    by simp
  show ?thesis
    by (rule conjI[OF wf]) (use find_duped_last_names_roster[OF wf] in \<open>auto simp: example_defs\<close>)
qed

text \<open>
  C13: whatever the file, when the loop of \<^verbatim>\<open>find_duped_last_names\<close> ends, the list
  \<^verbatim>\<open>last_names\<close> holds no name twice and every name of \<^verbatim>\<open>dupes\<close> is in it.
\<close>

theorem find_duped_loop_invariant:
  assumes "py_for dupes_step ([], {}) (py_lines text) = Inr (last_names, dupes)"
  shows "distinct last_names \<and> dupes \<subseteq> set last_names"
proof -
  have "dupes_inv (map (\<lambda>l. split_line l ! 1) (py_lines text)) (last_names, dupes)"
    using py_for_dupes_inv[OF assms dupes_inv_init] by simp
  then show ?thesis by (auto simp: dupes_inv_def repeated_def)
qed

theorem find_duped_loop_invariant_witness:
  "py_for dupes_step ([], {}) (py_lines ''a|X\<newline>b|Y\<newline>c|X\<newline>d|X\<newline>'') = Inr ([''X'', ''Y''], {''X''}) \<and>
   distinct [''X'', ''Y''] \<and> {''X''} \<subseteq> set [''X'', ''Y'']"
proof -
  have run: "py_for dupes_step ([], {}) (py_lines ''a|X\<newline>b|Y\<newline>c|X\<newline>d|X\<newline>'') =
      Inr ([''X'', ''Y''], {''X''})"
    by code_simp
  show ?thesis using find_duped_loop_invariant[OF run] run by simp
qed

text \<open>
  C28: on any text, \<^verbatim>\<open>find_duped_last_names\<close> succeeds exactly when every line has
  at least two fields after \<^verbatim>\<open>rstrip\<close>, and then returns the second fields that occur
  on two or more lines; a line of two fields is enough, as the code reads only
  \<^verbatim>\<open>data[1]\<close>.
\<close>

theorem find_duped_last_names_characterisation:
  "find_duped_last_names text = Inr D \<longleftrightarrow>
   (\<forall>line \<in> set (py_lines text). 2 \<le> length (split_line line)) \<and>
   D = repeated (map (\<lambda>l. split_line l ! 1) (py_lines text))"
proof
  assume run: "find_duped_last_names text = Inr D"
  then have "\<not> isl (find_duped_last_names text)" by simp
  then have ok: "\<forall>line \<in> set (py_lines text). 2 \<le> length (split_line line)"
    unfolding find_duped_isl_iff by (simp add: not_less)
  with run find_duped_ok[OF ok] show "(\<forall>line \<in> set (py_lines text). 2 \<le> length (split_line line)) \<and>
      D = repeated (map (\<lambda>l. split_line l ! 1) (py_lines text))" by simp
next
  assume "(\<forall>line \<in> set (py_lines text). 2 \<le> length (split_line line)) \<and>
      D = repeated (map (\<lambda>l. split_line l ! 1) (py_lines text))"
  with find_duped_ok show "find_duped_last_names text = Inr D" by simp
qed

theorem find_duped_last_names_characterisation_witness:
  "list_all (\<lambda>line. 2 \<le> length (split_line line)) (py_lines ''a|X\<newline>b|Y\<newline>c|X  \<newline>'') \<and>
   find_duped_last_names ''a|X\<newline>b|Y\<newline>c|X  \<newline>'' = Inr {''X''}"
proof -
  have ok: "(\<forall>line \<in> set (py_lines ''a|X\<newline>b|Y\<newline>c|X  \<newline>''). 2 \<le> length (split_line line)) \<and>
      {''X''} = repeated (map (\<lambda>l. split_line l ! 1) (py_lines ''a|X\<newline>b|Y\<newline>c|X  \<newline>''))"
    by code_simp
  show ?thesis
    using find_duped_last_names_characterisation[THEN iffD2, OF ok] ok by (simp add: list_all_iff)
qed

lemma repeated_perm:
  assumes m: "mset xs = mset ys"
  shows "repeated xs = repeated ys"
proof -
  have "count_list xs = count_list ys"
  proof
    fix x show "count_list xs x = count_list ys x" by (metis count_mset m)
  qed
  with mset_eq_setD[OF m] show ?thesis by (simp add: repeated_def)
qed

lemma find_duped_Inr_ok:
  "find_duped_last_names text = Inr D \<Longrightarrow> \<forall>line \<in> set (py_lines text). 2 \<le> length (split_line line)"
  using find_duped_isl_iff[of "text"] by (auto simp: not_less)

text \<open>
  C32: \<^verbatim>\<open>find_duped_last_names\<close> does not depend on the order of the lines: a
  surname counts as repeated by how many lines carry it, not where they are, so two files
  whose lines are a permutation of each other give the same set or the same error.
\<close>

theorem find_duped_last_names_line_order:
  assumes "mset (py_lines t1) = mset (py_lines t2)"
  shows "find_duped_last_names t1 = find_duped_last_names t2"
proof (rule py_result_eqI)
  show "isl (find_duped_last_names t1) \<longleftrightarrow> isl (find_duped_last_names t2)"
    using mset_eq_setD[OF assms] by (simp add: find_duped_isl_iff)
next
  fix D1 D2
  assume r1: "find_duped_last_names t1 = Inr D1" and r2: "find_duped_last_names t2 = Inr D2"
  have "D1 = repeated (map (\<lambda>l. split_line l ! 1) (py_lines t1))"
    using r1 find_duped_ok[OF find_duped_Inr_ok[OF r1]] by simp
  also have "\<dots> = repeated (map (\<lambda>l. split_line l ! 1) (py_lines t2))"
    by (rule repeated_perm) (simp add: assms)
  also have "\<dots> = D2"
    using r2 find_duped_ok[OF find_duped_Inr_ok[OF r2]] by simp
  finally show "D1 = D2" .
qed

theorem find_duped_last_names_line_order_witness:
  "mset (py_lines ''a|X\<newline>b|Y\<newline>c|X\<newline>'') = mset (py_lines ''c|X\<newline>a|X\<newline>b|Y\<newline>'') \<and>
   find_duped_last_names ''a|X\<newline>b|Y\<newline>c|X\<newline>'' = find_duped_last_names ''c|X\<newline>a|X\<newline>b|Y\<newline>''"
proof -
  have m: "mset (py_lines ''a|X\<newline>b|Y\<newline>c|X\<newline>'') = mset (py_lines ''c|X\<newline>a|X\<newline>b|Y\<newline>'')"
    by (simp add: py_lines_def nl_def add_mset_commute)
  show ?thesis using find_duped_last_names_line_order[OF m] m by simp
qed

end
