(* ===== verification/Housemates.thy ===== *)
theory Housemates
  imports Roster
begin

text \<open>
  \<^verbatim>\<open>get_housemates_for\<close> (\<^verbatim>\<open>src/cohort_data.py\<close>, lines 244--293), the one query
  that calls another: it runs \<^verbatim>\<open>all_data\<close> once to find the first row with the
  given name (a loop left by \<^verbatim>\<open>break\<close>), and, when there is one, runs
  \<^verbatim>\<open>all_data\<close> again to collect every other name with the same house and cohort.
  Both calls read the whole file, so a malformed line anywhere raises, unlike
  \<^verbatim>\<open>get_cohort_for\<close>. The target tuple is never empty, so \<^verbatim>\<open>if target_person:\<close>
  tests only whether one was found.
\<close>

text \<open>The first loop, lines 271--277: stop at the first row with the name.\<close>

fun find_target :: "string \<Rightarrow> row list \<Rightarrow> row option" where
  "find_target name [] = None"
| "find_target name (person # people) =
     (case person of (full_name, house, advisor, cohort_name) \<Rightarrow>
        if full_name = name then Some person else find_target name people)"

text \<open>The second loop, lines 283--286.\<close>

fun housemates_loop :: "string \<Rightarrow> string \<Rightarrow> string \<Rightarrow> string set \<Rightarrow> row list \<Rightarrow> string set" where
  "housemates_loop name target_house target_cohort housemates [] = housemates"
| "housemates_loop name target_house target_cohort housemates ((full_name, house, _, cohort_name) # rows) =
     housemates_loop name target_house target_cohort
       (if (house, cohort_name) = (target_house, target_cohort) \<and> full_name \<noteq> name
        then insert full_name housemates else housemates) rows"

definition get_housemates_for :: "string \<Rightarrow> string \<Rightarrow> string set py_result" where
  "get_housemates_for text name =
     (case all_data text of
        Inl e \<Rightarrow> Inl e
      | Inr people \<Rightarrow>
          (case find_target name people of
             None \<Rightarrow> Inr {}
           | Some (target_name, target_house, _, target_cohort) \<Rightarrow>
               (case all_data text of
                  Inl e \<Rightarrow> Inl e
                | Inr rows \<Rightarrow> Inr (housemates_loop name target_house target_cohort {} rows))))"

subsection \<open>Abstract specification\<close>

text \<open>
  The housemates of \<open>n\<close>: the names, other than \<open>n\<close>, of the rows with the house and
  cohort of the first row named \<open>n\<close>; nobody when no row has that name.
\<close>

definition housemates_spec :: "string \<Rightarrow> row list \<Rightarrow> string set" where
  "housemates_spec n rows =
     (case find (\<lambda>r. row_name r = n) rows of
        None \<Rightarrow> {}
      | Some t \<Rightarrow>
          set (names_where (\<lambda>r. row_house r = row_house t \<and> row_cohort r = row_cohort t) rows) - {n})"

subsection \<open>The two loops\<close>

lemma find_target_find: "find_target n rows = find (\<lambda>r. row_name r = n) rows"
  by (induction rows) auto

lemma housemates_loop_eq:
  "housemates_loop n h c H rows =
   H \<union> (set (names_where (\<lambda>r. row_house r = h \<and> row_cohort r = c) rows) - {n})"
  by (induction n h c H rows rule: housemates_loop.induct) (auto simp: names_where_def)

lemma get_housemates_for_all_data:
  "all_data text = Inr rows \<Longrightarrow> get_housemates_for text n = Inr (housemates_spec n rows)"
  by (auto simp: get_housemates_for_def housemates_spec_def find_target_find housemates_loop_eq
      split: option.split)

lemma get_housemates_for_isl_iff:
  "isl (get_housemates_for text n) \<longleftrightarrow> isl (all_data text)"
  by (cases "all_data text")
    (auto simp: get_housemates_for_def split: option.split prod.split)

lemma get_housemates_for_Inr_all_data:
  assumes "get_housemates_for text n = Inr H"
  obtains rows where "all_data text = Inr rows" and "H = housemates_spec n rows"
proof (cases "all_data text")
  case (Inl e)
  with assms get_housemates_for_isl_iff[of "text" n] show ?thesis by simp
next
  case (Inr rows)
  with assms get_housemates_for_all_data[OF Inr, of n] show ?thesis by (intro that) auto
qed

lemma housemates_spec_roster:
  "housemates_spec n (map row_of ps) =
   (case find (\<lambda>p. p_full_name p = n) ps of
      None \<Rightarrow> {}
    | Some t \<Rightarrow>
        set (map p_full_name (filter (\<lambda>p. p_house p = p_house t \<and> p_cohort p = p_cohort t) ps)) - {n})"
  by (simp add: housemates_spec_def find_map_option comp_def row_of_def names_where_def
      filter_map split: option.split)

lemma get_housemates_for_encode:
  "wf_roster ps \<Longrightarrow> get_housemates_for (encode_file ps) n = Inr (housemates_spec n (map row_of ps))"
  by (rule get_housemates_for_all_data[OF all_data_encode])

subsection \<open>Properties\<close>

text \<open>
  C3: on a well-formed roster file, \<^verbatim>\<open>get_housemates_for\<close> returns the full names,
  other than the one asked for, of the persons with the house and the cohort of the first
  person of that name, and the empty set when nobody has that name.
\<close>

theorem get_housemates_for_roster:
  "wf_roster ps \<Longrightarrow>
   get_housemates_for (encode_file ps) n =
     Inr (case find (\<lambda>p. p_full_name p = n) ps of
            None \<Rightarrow> {}
          | Some t \<Rightarrow>
              set (map p_full_name (filter (\<lambda>p. p_house p = p_house t \<and> p_cohort p = p_cohort t) ps)) - {n})"
  using get_housemates_for_encode[of ps n] by (simp add: housemates_spec_roster)

theorem get_housemates_for_roster_witness:
  "wf_roster [harry, ron, binns] \<and>
   get_housemates_for (encode_file [harry, ron, binns]) ''Harry Potter'' = Inr {''Ron Weasley''}"
proof -
  have wf: "wf_roster [harry, ron, binns]" by simp
  show ?thesis
    by (rule conjI[OF wf])
      (use get_housemates_for_roster[OF wf, of "''Harry Potter''"] in \<open>auto simp: example_defs p_full_name_def\<close>)
qed

text \<open>
  C9: whatever the file, the set \<^verbatim>\<open>get_housemates_for\<close> returns never contains the
  name that was asked for.
\<close>

theorem get_housemates_for_excludes_self:
  "get_housemates_for text n = Inr H \<Longrightarrow> n \<notin> H"
  by (erule get_housemates_for_Inr_all_data) (auto simp: housemates_spec_def split: option.splits)

theorem get_housemates_for_excludes_self_witness:
  "get_housemates_for ''A|B|H|x|C\<newline>A|B|H|y|C\<newline>D|E|H|z|C\<newline>'' ''A B'' = Inr {''D E''} \<and>
   ''A B'' \<notin> {''D E''}"
proof -
  have run: "get_housemates_for ''A|B|H|x|C\<newline>A|B|H|y|C\<newline>D|E|H|z|C\<newline>'' ''A B'' = Inr {''D E''}"
    by code_simp
  show ?thesis using get_housemates_for_excludes_self[OF run] run by simp
qed

text \<open>
  C16: when every line of the file parses and no row carries the name, the set of
  housemates is empty; the query does not raise.
\<close>

theorem get_housemates_for_unknown:
  "all_data text = Inr rows \<Longrightarrow> n \<notin> (\<lambda>r. row_name r) ` set rows \<Longrightarrow>
   get_housemates_for text n = Inr {}"
proof -
  assume rows: "all_data text = Inr rows" and n: "n \<notin> (\<lambda>r. row_name r) ` set rows"
  then have "find (\<lambda>r. row_name r = n) rows = None" by (force simp: find_None_iff)
  then show ?thesis by (simp add: get_housemates_for_all_data[OF rows] housemates_spec_def)
qed

theorem get_housemates_for_unknown_witness:
  "all_data (encode_file [harry, ron]) =
     Inr [(''Harry Potter'', ''Gryffindor'', ''McGonagall'', ''Fall 2015''),
          (''Ron Weasley'', ''Gryffindor'', ''McGonagall'', ''Fall 2015'')] \<and>
   ''Balloonicorn'' \<notin> (\<lambda>r. row_name r) ` set
     [(''Harry Potter'', ''Gryffindor'', ''McGonagall'', ''Fall 2015''),
      (''Ron Weasley'', ''Gryffindor'', ''McGonagall'', ''Fall 2015'')] \<and>
   get_housemates_for (encode_file [harry, ron]) ''Balloonicorn'' = Inr {}"
proof -
  have d: "all_data (encode_file [harry, ron]) =
     Inr [(''Harry Potter'', ''Gryffindor'', ''McGonagall'', ''Fall 2015''),
          (''Ron Weasley'', ''Gryffindor'', ''McGonagall'', ''Fall 2015'')]"
    by code_simp
  have n: "''Balloonicorn'' \<notin> (\<lambda>r. row_name r) ` set
     [(''Harry Potter'', ''Gryffindor'', ''McGonagall'', ''Fall 2015''),
      (''Ron Weasley'', ''Gryffindor'', ''McGonagall'', ''Fall 2015'')]"
    by simp
  show ?thesis using get_housemates_for_unknown[OF d n] d n by simp
qed

text \<open>
  C17: on a well-formed roster file where no two persons share a full name, being a
  housemate is symmetric: if \<open>b\<close> is a housemate of \<open>a\<close> then \<open>a\<close> is a
  housemate of \<open>b\<close>.
\<close>

theorem get_housemates_for_symmetric:
  assumes "wf_roster ps" and "distinct (map p_full_name ps)"
    and "get_housemates_for (encode_file ps) a = Inr Ha" and "b \<in> Ha"
  shows "\<exists>Hb. get_housemates_for (encode_file ps) b = Inr Hb \<and> a \<in> Hb"
proof -
  from assms(3) have Ha: "Ha = housemates_spec a (map row_of ps)"
    using get_housemates_for_encode[OF assms(1), of a] by simp
  with assms(4) obtain ta where ta: "find (\<lambda>p. p_full_name p = a) ps = Some ta"
    by (auto simp: housemates_spec_roster split: option.splits)
  then have ta_in: "ta \<in> set ps" and ta_name: "p_full_name ta = a"
    by (auto simp: find_Some_iff)
  from assms(4) Ha ta obtain pb where pb: "pb \<in> set ps" "p_full_name pb = b"
    "p_house pb = p_house ta" "p_cohort pb = p_cohort ta" "b \<noteq> a"
    by (auto simp: housemates_spec_roster)
  have "find (\<lambda>p. p_full_name p = b) ps = Some pb"
    using find_distinct_key[OF assms(2) pb(1)] pb(2) by simp
  then have "a \<in> housemates_spec b (map row_of ps)"
    using ta_in ta_name pb by (auto simp: housemates_spec_roster)
  then show ?thesis using get_housemates_for_encode[OF assms(1), of b] by simp
qed

theorem get_housemates_for_symmetric_witness:
  "wf_roster [harry, ron] \<and> distinct (map p_full_name [harry, ron]) \<and>
   get_housemates_for (encode_file [harry, ron]) ''Harry Potter'' = Inr {''Ron Weasley''} \<and>
   ''Ron Weasley'' \<in> {''Ron Weasley''} \<and>
   (\<exists>Hb. get_housemates_for (encode_file [harry, ron]) ''Ron Weasley'' = Inr Hb \<and> ''Harry Potter'' \<in> Hb)"
proof -
  have wf: "wf_roster [harry, ron]" by simp
  have d: "distinct (map p_full_name [harry, ron])" by (simp add: example_defs p_full_name_def)
  have run: "get_housemates_for (encode_file [harry, ron]) ''Harry Potter'' = Inr {''Ron Weasley''}"
    by code_simp
  have m: "''Ron Weasley'' \<in> {''Ron Weasley''}" by simp
  show ?thesis using get_housemates_for_symmetric[OF wf d run m] wf d run m by blast
qed

text \<open>
  C20: \<^verbatim>\<open>get_housemates_for\<close> raises \<^verbatim>\<open>IndexError\<close> exactly when some line of the
  file has fewer than five fields, wherever that line is, before or after the person.
\<close>

theorem get_housemates_for_error:
  "isl (get_housemates_for text n) \<longleftrightarrow> (\<exists>line \<in> set (py_lines text). length (split_line line) < 5)"
  by (simp add: get_housemates_for_isl_iff all_data_isl_iff)

end
