(* ===== verification/Spec2Isabelle.thy ===== *)
theory Spec2Isabelle
  imports Houses Cohorts Dupes Housemates
begin

text \<open>
  \<^bold>\<open>A verification library for \<^verbatim>\<open>src/cohort_data.py\<close>.\<close>

  \<^bold>\<open>The program.\<close> One Python module answers seven read-only queries over a roster
  file whose lines are \<^verbatim>\<open>first|last|house|advisor|cohort\<close>. Each query opens
  the file, loops over its lines, splits each line on \<^verbatim>\<open>|\<close> and builds its answer:
  \<^verbatim>\<open>all_houses\<close> (lines 4--30), \<^verbatim>\<open>students_by_cohort\<close> (33--77),
  \<^verbatim>\<open>all_names_by_house\<close> (80--146), \<^verbatim>\<open>all_data\<close> (149--181),
  \<^verbatim>\<open>get_cohort_for\<close> (184--212), \<^verbatim>\<open>find_duped_last_names\<close> (214--241) and
  \<^verbatim>\<open>get_housemates_for\<close> (244--293), the only query that calls another
  (\<^verbatim>\<open>all_data\<close>, twice). A line with too few fields makes the indexing raise
  \<^verbatim>\<open>IndexError\<close>; nothing else can fail once the file is open.

  \<^bold>\<open>How the theories model it.\<close>
  \<^item> \<open>Prelude\<close>: the error type \<open>py_error\<close> (\<^verbatim>\<open>IndexError\<close>), results
    \<open>py_error + 'a\<close>, Python indexing \<open>py_index\<close>, and \<open>py_for\<close>, a
    \<^verbatim>\<open>for\<close> loop whose body may raise. Its lemmas (fusion with \<open>fold\<close> when
    no step raises, the invariant rule, the characterisation of failure, the
    collect-with-exceptions rule) are the interface every query's proofs go through.
  \<^item> \<open>PyStr\<close>: \<^verbatim>\<open>str.isspace\<close> on the 256 code points of \<open>char\<close>,
    \<^verbatim>\<open>str.rstrip()\<close>, \<^verbatim>\<open>str.split(sep)\<close> and text-file line iteration
    (\<open>py_lines\<close>, lines keep their newline), with the round trips of split/join and
    of the line reader and the fact that \<^verbatim>\<open>rstrip\<close> only changes the last field.
  \<^item> \<open>Roster\<close>: the record parser shared by the queries (\<open>split_line\<close> is
    \<^verbatim>\<open>line.rstrip().split('|')\<close>, \<open>py_full_name\<close> the f-string,
    \<open>record_of_fields\<close> the 4-tuple), \<^verbatim>\<open>all_data\<close>, and the abstract roster:
    a \<open>person\<close> record, the line format \<open>encode_line\<close>/\<open>encode_file\<close>,
    and \<open>wf_person\<close> (no \<^verbatim>\<open>|\<close> or newline in a field, no trailing whitespace
    in the cohort). The abstraction is: a file is \<open>encode_file ps\<close>, and
    \<open>all_data (encode_file ps) = Inr (map row_of ps)\<close>.
  \<^item> \<open>Houses\<close>: \<^verbatim>\<open>all_houses\<close> (raw line, no \<^verbatim>\<open>rstrip\<close>) and
    \<^verbatim>\<open>all_names_by_house\<close> (a record of seven rosters, the \<^verbatim>\<open>if\<close>/\<^verbatim>\<open>elif\<close>
    chain as \<open>file_by_house\<close>, the final sort).
  \<^item> \<open>Cohorts\<close>: \<^verbatim>\<open>students_by_cohort\<close> (both appends of lines 72--75) and
    \<^verbatim>\<open>get_cohort_for\<close> (a recursive loop that returns on the first match).
  \<^item> \<open>Dupes\<close>: \<^verbatim>\<open>find_duped_last_names\<close>, the loop state
    \<open>(last_names, dupes)\<close> and its invariant \<open>dupes_inv\<close>.
  \<^item> \<open>Housemates\<close>: \<^verbatim>\<open>get_housemates_for\<close>, with the loop left by
    \<^verbatim>\<open>break\<close> (\<open>find_target\<close>) and the collecting loop (\<open>housemates_loop\<close>).
  \<^item> this theory: properties that relate several queries.
  Every query takes the file's content (a \<open>string\<close>) where the code takes its name,
  and returns \<open>Inl IndexError\<close> where the code raises. Sets are \<open>string set\<close>,
  lists are lists, a tuple is a tuple; loops are \<open>py_for\<close> or structural recursion
  over the lines, so every definition is total and executable, and no fuel is needed:
  each loop runs over the finite list of lines.

  \<^bold>\<open>What is proved.\<close> For each query: its refinement of an abstract specification on
  well-formed roster files (\<open>*_roster\<close>: the result computed from the list of
  persons by \<open>filter\<close>, \<open>find\<close>, \<open>sort\<close> and counting); its behaviour on any
  text (the invariants \<open>all_houses_no_empty\<close>, \<open>all_names_by_house_shape\<close>,
  \<open>get_housemates_for_excludes_self\<close>, \<open>find_duped_loop_invariant\<close>, the bound
  \<open>students_by_cohort_sorted_bounded\<close>); exactly when it raises
  (\<open>all_houses_error\<close>, \<open>get_housemates_for_error\<close>,
  \<open>get_cohort_for_error\<close>, \<open>all_data_characterisation\<close>,
  \<open>all_houses_characterisation\<close>, \<open>find_duped_last_names_characterisation\<close>);
  that the queries which split the lines themselves agree with \<^verbatim>\<open>all_data\<close> on
  every text, errors included (\<open>students_by_cohort_via_all_data\<close>,
  \<open>all_names_by_house_via_all_data\<close>, through \<open>py_result_refine\<close> of the
  prelude); that the queries returning a set or a sorted list do not depend on the
  order of the lines (\<open>all_houses_line_order\<close>,
  \<open>find_duped_last_names_line_order\<close>, \<open>students_by_cohort_line_order\<close>,
  \<open>all_names_by_house_line_order\<close>, through \<open>all_data_line_order\<close> of
  \<open>Roster\<close>); and the control flow the code has
  (\<open>get_cohort_for_early_return\<close>: nothing after the match is read). The spec's
  law that the \<^verbatim>\<open>'All'\<close> roster is the sorted union of the per-cohort rosters
  holds when no cohort field is literally \<^verbatim>\<open>'All'\<close>
  (\<open>students_by_cohort_All_union\<close>). The round trips of the file format are
  \<open>roster_file_roundtrip\<close> (persons to text to fields) and
  \<open>roster_text_roundtrip\<close> (text to persons to text); the laws of the modelled
  primitives they rest on (\<open>join_split_sep\<close>, \<open>split_join_sep\<close>,
  \<open>concat_lines_from\<close>, \<open>nth_split_sep_rstrip\<close>) are lemmas of \<open>PyStr\<close>.
  Across queries: housemates share the cohort that \<^verbatim>\<open>get_cohort_for\<close> reports and
  appear in that cohort's roster.

  \<^bold>\<open>What the modelling showed.\<close> For the query \<^verbatim>\<open>'All'\<close> a person whose
  cohort field is \<^verbatim>\<open>'All'\<close> is listed twice (\<open>students_by_cohort_All_twice\<close>);
  a one-character cohort such as \<^verbatim>\<open>'G'\<close> selects nobody
  (\<open>students_by_cohort_short_cohort\<close>); \<^verbatim>\<open>all_houses\<close> keeps the newline of
  a three-field line in the house name (\<open>all_houses_characterisation\<close>);
  \<^verbatim>\<open>get_housemates_for\<close> excludes the queried person by name, so a namesake in the
  same house and cohort is never reported (\<open>get_housemates_for_excludes_self\<close>), and
  it raises on a short line anywhere (\<open>get_housemates_for_error\<close>), while
  \<^verbatim>\<open>get_cohort_for\<close> raises only on one before the match, although the spec
  says it never raises (\<open>get_cohort_for_error\<close>).

  \<^bold>\<open>Not modelled.\<close> Opening the file (I/O: missing files, permissions, encodings;
  the handles the code never closes); universal-newline translation (the model reads the
  translated text); code points above 255 (\<open>char\<close> has 256 values, which the
  whitespace set and the string order cover exactly); the doctest harness of lines
  300--310.
\<close>

subsection \<open>Properties across the queries\<close>

text \<open>
  C18: on a well-formed roster file with distinct full names, every housemate of a person
  has that person's cohort, as \<^verbatim>\<open>get_cohort_for\<close> reports it.
\<close>

theorem housemates_share_cohort:
  assumes "wf_roster ps" and "distinct (map p_full_name ps)"
    and "get_housemates_for (encode_file ps) a = Inr H" and "b \<in> H"
  shows "get_cohort_for (encode_file ps) b = get_cohort_for (encode_file ps) a"
proof -
  have H: "H = housemates_spec a (map row_of ps)"
    using assms(3) get_housemates_for_encode[OF assms(1), of a] by simp
  with assms(4) obtain ta where ta: "find (\<lambda>p. p_full_name p = a) ps = Some ta"
    by (auto simp: housemates_spec_roster split: option.splits)
  from assms(4) H ta obtain pb where pb: "pb \<in> set ps" "p_full_name pb = b"
    "p_cohort pb = p_cohort ta"
    by (auto simp: housemates_spec_roster)
  have "find (\<lambda>p. p_full_name p = b) ps = Some pb"
    using find_distinct_key[OF assms(2) pb(1)] pb(2) by simp
  with ta pb(3) show ?thesis by (simp add: get_cohort_for_encode[OF assms(1)])
qed

theorem housemates_share_cohort_witness:
  "wf_roster [harry, ron, binns] \<and> distinct (map p_full_name [harry, ron, binns]) \<and>
   get_housemates_for (encode_file [harry, ron, binns]) ''Harry Potter'' = Inr {''Ron Weasley''} \<and>
   ''Ron Weasley'' \<in> {''Ron Weasley''} \<and>
   get_cohort_for (encode_file [harry, ron, binns]) ''Ron Weasley'' =
     get_cohort_for (encode_file [harry, ron, binns]) ''Harry Potter''"
proof -
  have wf: "wf_roster [harry, ron, binns]" by simp
  have d: "distinct (map p_full_name [harry, ron, binns])" by (simp add: example_defs p_full_name_def)
  have run: "get_housemates_for (encode_file [harry, ron, binns]) ''Harry Potter'' = Inr {''Ron Weasley''}"
    by code_simp
  have m: "''Ron Weasley'' \<in> {''Ron Weasley''}" by simp
  show ?thesis using housemates_share_cohort[OF wf d run m] wf d run m by blast
qed

text \<open>
  C19: on a well-formed roster file, every housemate of a person whose cohort (as
  \<^verbatim>\<open>get_cohort_for\<close> reports it) is longer than one character is listed by
  \<^verbatim>\<open>students_by_cohort\<close> for that cohort.
\<close>

theorem housemates_in_cohort_roster:
  assumes "wf_roster ps" and "get_housemates_for (encode_file ps) a = Inr H" and "b \<in> H"
    and "get_cohort_for (encode_file ps) a = Inr (Some c)" and "1 < length c"
  shows "\<exists>xs. students_by_cohort (encode_file ps) c = Inr xs \<and> b \<in> set xs"
proof -
  have H: "H = housemates_spec a (map row_of ps)"
    using assms(2) get_housemates_for_encode[OF assms(1), of a] by simp
  with assms(3) obtain ta where ta: "find (\<lambda>p. p_full_name p = a) ps = Some ta"
    by (auto simp: housemates_spec_roster split: option.splits)
  with assms(4) have c: "c = p_cohort ta" by (simp add: get_cohort_for_encode[OF assms(1)])
  from assms(3) H ta obtain pb where pb: "pb \<in> set ps" "p_full_name pb = b"
    "p_cohort pb = p_cohort ta"
    by (auto simp: housemates_spec_roster)
  have "b \<in> set (cohort_names c (map row_of ps))"
    using pb c assms(5) by (force simp: cohort_names_def names_where_def row_of_def)
  then show ?thesis
    using students_by_cohort_all_data[OF all_data_encode[OF assms(1)], of c] by auto
qed

theorem housemates_in_cohort_roster_witness:
  "wf_roster [harry, ron] \<and>
   get_housemates_for (encode_file [harry, ron]) ''Ron Weasley'' = Inr {''Harry Potter''} \<and>
   ''Harry Potter'' \<in> {''Harry Potter''} \<and>
   get_cohort_for (encode_file [harry, ron]) ''Ron Weasley'' = Inr (Some ''Fall 2015'') \<and>
   1 < length ''Fall 2015'' \<and>
   (\<exists>xs. students_by_cohort (encode_file [harry, ron]) ''Fall 2015'' = Inr xs \<and> ''Harry Potter'' \<in> set xs)"
proof -
  have wf: "wf_roster [harry, ron]" by simp
  have run: "get_housemates_for (encode_file [harry, ron]) ''Ron Weasley'' = Inr {''Harry Potter''}"
    by code_simp
  have m: "''Harry Potter'' \<in> {''Harry Potter''}" by simp
  have c: "get_cohort_for (encode_file [harry, ron]) ''Ron Weasley'' = Inr (Some ''Fall 2015'')"
    by code_simp
  have l: "1 < length ''Fall 2015''" by simp
  show ?thesis using housemates_in_cohort_roster[OF wf run m c l] wf run m c l by blast
qed

end
